theory Spec2Isabelle
  imports Complex_Main
begin

section \<open>The Shopify Admin GraphQL client (src/lib/shopify/client.ts)\<close>

text \<open>
  JavaScript numbers are idealised as \<open>real\<close> (points, rates, clock values and
  durations in milliseconds) and as \<open>nat\<close>/\<open>int\<close> where the code only counts
  (attempt index, retries, page size). The one place where the idealisation would hide
  something is the division by \<open>restoreRate\<close> in \<open>waitForRateLimit\<close>: HOL's
  \<open>x / 0 = 0\<close> is not what JavaScript computes, so the zero divisor is a branch of
  its own.
\<close>

subsection \<open>Data\<close>

text \<open>interface RateLimitState (client.ts, lines 42-46).\<close>

record RateLimitState =
  available :: real
  restoreRate :: real
  lastUpdate :: real

text \<open>
  \<open>extensions.cost.throttleStatus\<close> of a response (lines 33-37). The selector of its
  restore rate is named \<open>reportedRestoreRate\<close> to keep it apart from the field of
  \<open>RateLimitState\<close>.
\<close>

datatype throttleStatus =
  ThrottleStatus (maximumAvailable: real) (currentlyAvailable: real) (reportedRestoreRate: real)

text \<open>
  One entry of \<open>errors\<close> (lines 20-28): the client reads \<open>message\<close> and
  \<open>extensions?.code\<close> only.
\<close>

record GraphQLError =
  message :: string
  code :: "string option"

text \<open>
  interface GraphQLResponse<T> (lines 18-40). \<open>extensions\<close> holds what
  \<open>extensions?.cost?.throttleStatus\<close> evaluates to.
\<close>

record 'd GraphQLResponse =
  data :: "'d option"
  errors :: "GraphQLError list option"
  extensions :: "throttleStatus option"

text \<open>A JavaScript \<open>Error\<close>, by its message.\<close>

datatype Error = Error string

text \<open>Values of GraphQL variables; \<open>paginate\<close> writes a number, a string and null.\<close>

datatype jsval = JNull | JNum int | JStr string | JBool bool

record request =
  queryText :: string
  variables :: "(string \<rightharpoonup> jsval) option"

text \<open>
  What one call of \<open>fetch\<close> followed by \<open>response.json()\<close> can do (lines 101-114):
  \<open>fetch\<close> rejects, the response is not ok (status and status text), \<open>json()\<close>
  rejects, or a JSON body arrives.
\<close>

datatype 'd fetchResult =
    Rejected string
  | HttpNotOk nat string
  | BadJson string
  | Json "'d GraphQLResponse"

text \<open>
  The world outside the client: the \<open>k\<close>-th call of \<open>fetch\<close> (counted from 0 over
  the client's life) with a given request, and the \<open>k\<close>-th reading of \<open>Date.now()\<close>.
\<close>

record 'd env =
  fetch :: "nat \<Rightarrow> request \<Rightarrow> 'd fetchResult"
  dateNow :: "nat \<Rightarrow> real"

text \<open>
  A delay handed to \<open>setTimeout\<close>: a number of milliseconds, or JavaScript's
  \<open>Infinity\<close> (a positive number divided by zero).
\<close>

datatype duration = Ms real | Infinity

text \<open>
  What the client does to the outside, in order: the three \<open>setTimeout\<close> sites
  (line 84, line 126, line 144) and the requests sent. \<open>console.log\<close> is left out.
\<close>

datatype event =
    RateLimitWait duration
  | ThrottleWait real
  | Backoff real
  | Request request

record client =
  rateLimitState :: RateLimitState
  fetchCount :: nat
  clockReads :: nat
  trace :: "event list"

subsection \<open>Operations\<close>

definition readClock :: "'d env \<Rightarrow> client \<Rightarrow> real \<times> client" where
  "readClock e c = (dateNow e (clockReads c), c\<lparr>clockReads := Suc (clockReads c)\<rparr>)"

definition emit :: "event \<Rightarrow> client \<Rightarrow> client" where
  "emit ev c = c\<lparr>trace := trace c @ [ev]\<rparr>"

text \<open>
  A new client (the field initialisers, lines 50-54): 1000 points, 50 points per second,
  observed at the time of construction.
\<close>

definition newClient :: "'d env \<Rightarrow> client" where
  "newClient e =
     \<lparr>rateLimitState = \<lparr>available = 1000, restoreRate = 50, lastUpdate = dateNow e 0\<rparr>,
      fetchCount = 0, clockReads = 1, trace = []\<rparr>"

text \<open>updateRateLimit (lines 64-73).\<close>

definition updateRateLimit :: "'d env \<Rightarrow> throttleStatus option \<Rightarrow> client \<Rightarrow> client" where
  "updateRateLimit e ext c =
     (case ext of
        None \<Rightarrow> c
      | Some ts \<Rightarrow>
          (let (now, c1) = readClock e c
           in c1\<lparr>rateLimitState :=
                   \<lparr>available = currentlyAvailable ts,
                    restoreRate = reportedRestoreRate ts,
                    lastUpdate = now\<rparr>\<rparr>))"

text \<open>
  waitForRateLimit (lines 75-86) with the value of \<open>Date.now()\<close> as an argument:
  \<open>None\<close> when the method does not wait, otherwise the delay \<open>waitTime + 100\<close>
  given to \<open>setTimeout\<close>. The bound 1000 is the literal of line 79. With a restore
  rate of zero the quotient of line 82 is a positive number over zero, \<open>Infinity\<close>.
\<close>

definition waitForRateLimit_at :: "RateLimitState \<Rightarrow> real \<Rightarrow> real \<Rightarrow> duration option" where
  "waitForRateLimit_at st now cost =
     (let elapsed = (now - lastUpdate st) / 1000;
          restored = elapsed * restoreRate st;
          estimated = min 1000 (available st + restored)
      in if estimated < cost
         then (if restoreRate st = 0 then Some Infinity
               else Some (Ms (((cost - estimated) / restoreRate st) * 1000 + 100)))
         else None)"

definition waitForRateLimit :: "'d env \<Rightarrow> real \<Rightarrow> client \<Rightarrow> client" where
  "waitForRateLimit e cost c =
     (let (now, c1) = readClock e c
      in case waitForRateLimit_at (rateLimitState c1) now cost of
           None \<Rightarrow> c1
         | Some d \<Rightarrow> emit (RateLimitWait d) c1)"

text \<open>\<open>Array.prototype.join\<close> on strings.\<close>

fun join :: "string \<Rightarrow> string list \<Rightarrow> string" where
  "join sep [] = []"
| "join sep [x] = x"
| "join sep (x # y # ys) = x @ sep @ join sep (y # ys)"

text \<open>Decimal rendering of a status code inside a template literal.\<close>

fun digits :: "nat \<Rightarrow> string" where
  "digits n =
     (if n < 10 then [''0123456789'' ! n]
      else digits (n div 10) @ [''0123456789'' ! (n mod 10)])"

declare digits.simps [simp del]

text \<open>
  The body of the \<open>try\<close> block (lines 101-137). It ends by returning the data, by
  \<open>continue\<close> (the throttled branch, after its two-second wait), or by throwing.
\<close>

datatype 'd attemptOutcome = Return 'd | Continue | Throw Error

definition isThrottled :: "GraphQLError \<Rightarrow> bool" where
  "isThrottled err = (code err = Some ''THROTTLED'')"

definition attemptBody :: "'d env \<Rightarrow> request \<Rightarrow> client \<Rightarrow> 'd attemptOutcome \<times> client" where
  "attemptBody e req c =
     (let c1 = emit (Request req) (c\<lparr>fetchCount := Suc (fetchCount c)\<rparr>)
      in case fetch e (fetchCount c) req of
           Rejected m \<Rightarrow> (Throw (Error m), c1)
         | HttpNotOk status statusText \<Rightarrow>
             (Throw (Error (''HTTP '' @ digits status @ '': '' @ statusText)), c1)
         | BadJson m \<Rightarrow> (Throw (Error m), c1)
         | Json json \<Rightarrow>
             (let c2 = updateRateLimit e (extensions json) c1
              in case errors json of
                   Some (er # ers) \<Rightarrow>
                     (let errorMessages = join '', '' (map message (er # ers))
                      in if list_ex isThrottled (er # ers)
                         then (Continue, emit (ThrottleWait 2000) c2)
                         else (Throw (Error (''GraphQL Error: '' @ errorMessages)), c2))
                 | _ \<Rightarrow>
                     (case data json of
                        None \<Rightarrow> (Throw (Error ''No data in response''), c2)
                      | Some d \<Rightarrow> (Return d, c2))))"

text \<open>
  The \<open>for\<close> loop of \<open>query\<close> (lines 99-149) from a given \<open>attempt\<close>, with the
  \<open>catch\<close> block (lines 138-146) and the final \<open>throw\<close> (line 149).
\<close>

function queryLoop ::
  "'d env \<Rightarrow> request \<Rightarrow> int \<Rightarrow> nat \<Rightarrow> Error option \<Rightarrow> client \<Rightarrow> (Error + 'd) \<times> client" where
  "queryLoop e req retries attempt lastError c =
     (if int attempt < retries
      then (case attemptBody e req c of
              (Return d, c') \<Rightarrow> (Inr d, c')
            | (Continue, c') \<Rightarrow> queryLoop e req retries (Suc attempt) lastError c'
            | (Throw err, c') \<Rightarrow>
                queryLoop e req retries (Suc attempt) (Some err)
                  (if int attempt < retries - 1
                   then emit (Backoff (2 ^ attempt * 1000)) c'
                   else c'))
      else (Inl (case lastError of Some err \<Rightarrow> err | None \<Rightarrow> Error ''Unknown error''), c))"
  by pat_completeness auto
termination
  by (relation "measure (\<lambda>(e, req, retries, attempt, lastError, c). nat (retries - int attempt))")
     auto

declare queryLoop.simps [simp del]

text \<open>The \<open>options\<close> argument of \<open>query\<close> (line 91).\<close>

record queryOptions =
  estimatedCost :: "real option"
  retries :: "int option"

text \<open>query (lines 88-150).\<close>

definition query ::
  "'d env \<Rightarrow> string \<Rightarrow> (string \<rightharpoonup> jsval) option \<Rightarrow> queryOptions option \<Rightarrow> client
     \<Rightarrow> (Error + 'd) \<times> client" where
  "query e q vars options c =
     (let opts = (case options of None \<Rightarrow> \<lparr>estimatedCost = None, retries = None\<rparr> | Some os \<Rightarrow> os);
          cost = (case estimatedCost opts of None \<Rightarrow> 100 | Some x \<Rightarrow> x);
          n = (case retries opts of None \<Rightarrow> 3 | Some x \<Rightarrow> x);
          c1 = waitForRateLimit e cost c
      in queryLoop e \<lparr>queryText = q, variables = vars\<rparr> n 0 None c1)"

text \<open>
  The outcome of the \<open>try\<close> block as a function of what \<open>fetch\<close> delivered. It
  repeats the case analysis of \<open>attemptBody\<close> without the state; lemma
  \<open>attemptBody_outcome\<close> shows that the two agree.
\<close>

definition classify :: "'d fetchResult \<Rightarrow> 'd attemptOutcome" where
  "classify r =
     (case r of
        Rejected m \<Rightarrow> Throw (Error m)
      | HttpNotOk status statusText \<Rightarrow>
          Throw (Error (''HTTP '' @ digits status @ '': '' @ statusText))
      | BadJson m \<Rightarrow> Throw (Error m)
      | Json json \<Rightarrow>
          (case errors json of
             Some (er # ers) \<Rightarrow>
               (if list_ex isThrottled (er # ers) then Continue
                else Throw (Error (''GraphQL Error: '' @ join '', '' (map message (er # ers)))))
           | _ \<Rightarrow>
               (case data json of
                  None \<Rightarrow> Throw (Error ''No data in response'')
                | Some d \<Rightarrow> Return d)))"

subsection \<open>Pagination\<close>

text \<open>What \<open>getPageInfo\<close> returns (line 158).\<close>

record pageInfo =
  hasNextPage :: bool
  endCursor :: "string option"

text \<open>The \<open>cursor\<close> variable (\<open>string | null\<close>) as the value of \<open>after\<close>.\<close>

fun cursorValue :: "string option \<Rightarrow> jsval" where
  "cursorValue None = JNull"
| "cursorValue (Some s) = JStr s"

text \<open>\<open>{...variables, first: pageSize, after: cursor}\<close> (lines 167-171).\<close>

definition pageVariables :: "(string \<rightharpoonup> jsval) \<Rightarrow> int \<Rightarrow> string option \<Rightarrow> (string \<rightharpoonup> jsval)" where
  "pageVariables vars pageSize cursor =
     vars(''first'' \<mapsto> JNum pageSize, ''after'' \<mapsto> cursorValue cursor)"

text \<open>
  The \<open>while\<close> loop of the generator \<open>paginate\<close> (lines 166-181), drained by its
  consumer. The loop runs as long as the server says there is a next page, so the model
  takes fuel: \<open>None\<close> is "still running when the fuel ran out". Otherwise the result is
  the pages yielded so far, the error \<open>query\<close> threw into the generator (if any) and
  the client.
\<close>

fun paginateLoop ::
  "nat \<Rightarrow> 'd env \<Rightarrow> string \<Rightarrow> (string \<rightharpoonup> jsval) \<Rightarrow> ('d \<Rightarrow> pageInfo) \<Rightarrow> ('d \<Rightarrow> 'n list) \<Rightarrow> int
     \<Rightarrow> bool \<Rightarrow> string option \<Rightarrow> 'n list list \<Rightarrow> client
     \<Rightarrow> ('n list list \<times> Error option \<times> client) option" where
  "paginateLoop 0 e q vars getPageInfo getNodes pageSize hasNext cursor yielded c =
     (if hasNext then None else Some (yielded, None, c))"
| "paginateLoop (Suc fuel) e q vars getPageInfo getNodes pageSize hasNext cursor yielded c =
     (if hasNext
      then (case query e q (Some (pageVariables vars pageSize cursor)) None c of
              (Inl err, c') \<Rightarrow> Some (yielded, Some err, c')
            | (Inr d, c') \<Rightarrow>
                (let nodes = getNodes d;
                     yielded' = (if length nodes > 0 then yielded @ [nodes] else yielded);
                     info = getPageInfo d
                 in paginateLoop fuel e q vars getPageInfo getNodes pageSize
                      (hasNextPage info) (endCursor info) yielded' c'))
      else Some (yielded, None, c))"

text \<open>paginate (lines 155-182); \<open>options\<close> is \<open>{ pageSize?: number }\<close> or absent.\<close>

definition paginate ::
  "nat \<Rightarrow> 'd env \<Rightarrow> string \<Rightarrow> (string \<rightharpoonup> jsval) \<Rightarrow> ('d \<Rightarrow> pageInfo) \<Rightarrow> ('d \<Rightarrow> 'n list)
     \<Rightarrow> int option option \<Rightarrow> client \<Rightarrow> ('n list list \<times> Error option \<times> client) option" where
  "paginate fuel e q vars getPageInfo getNodes options c =
     (let pageSize = (case options of Some (Some n) \<Rightarrow> n | _ \<Rightarrow> 50)
      in paginateLoop fuel e q vars getPageInfo getNodes pageSize True None [] c)"

text \<open>The requests of a trace, in order.\<close>

fun requestsOf :: "event list \<Rightarrow> request list" where
  "requestsOf [] = []"
| "requestsOf (Request r # evs) = r # requestsOf evs"
| "requestsOf (_ # evs) = requestsOf evs"

text \<open>
  The cursors a walk passes as \<open>after\<close>: it starts from null and follows the
  \<open>endCursor\<close> of each page, \<open>info\<close> giving the page info of the page that a cursor
  leads to.
\<close>

fun cursorChain :: "(string option \<Rightarrow> pageInfo) \<Rightarrow> nat \<Rightarrow> string option \<Rightarrow> string option list" where
  "cursorChain info 0 cursor = []"
| "cursorChain info (Suc n) cursor = cursor # cursorChain info n (endCursor (info cursor))"

section \<open>The Google Drive import route (src/app/api/gdrive/import/route.ts)\<close>

text \<open>
  The model covers the run proper: from the list of files that \<open>listFolderTree\<close>
  returned (line 37) to the counters of the JSON report (lines 39-156). The guards before
  it (missing folder id, bucket or user, lines 23-31) end the handler without a report.
\<close>

subsection \<open>Data\<close>

text \<open>A file of the Drive tree; \<open>fileId\<close> is the field \<open>id\<close>.\<close>

record RemoteFile =
  fileId :: string
  path :: string
  mimeType :: string
  name :: string

text \<open>
  What a collaborator throws: an \<open>Error\<close> with its message, or some other value
  (the \<open>catch\<close> block tells them apart, line 146).
\<close>

datatype thrown = ThrownError string | ThrownOther

text \<open>One entry of \<open>results.errors\<close>: \<open>{ path, message }\<close>.\<close>

datatype itemError = ItemError (errorPath: string) (errorMessage: string)

text \<open>
  The object \<open>results\<close> (lines 39-47); its field \<open>errors\<close> is \<open>errors'\<close> here,
  the plain name being a field of \<open>GraphQLResponse\<close>.
\<close>

record results =
  total :: nat
  uploaded :: nat
  failed :: nat
  errors' :: "itemError list"
  assetsCreated :: nat
  bucketsCreated :: nat
  skippedNoProduct :: nat

text \<open>The columns the route writes to \<open>media_buckets\<close> (lines 83-90).\<close>

record bucketValues =
  product_id :: string
  sku_label :: string
  storj_path :: string
  bucket_status :: string
  google_drive_folder_path :: string
  last_upload_at :: string

text \<open>The columns the route writes to \<open>media_assets\<close> (lines 121-135).\<close>

record mediaAsset =
  media_bucket_id :: string
  media_type :: string
  workflow_state :: string
  workflow_category :: string
  file_url :: string
  file_key :: string
  file_size :: nat
  file_mime_type :: string
  original_filename :: string
  source_folder_path :: string
  google_drive_file_id :: string
  asset_folder_path :: string
  import_source :: string

text \<open>An object put into storage: bucket, key, body, content type.\<close>

type_synonym storedObject = "string \<times> string \<times> string \<times> string"

text \<open>A row of \<open>media_buckets\<close>: its \<open>id\<close> and its columns.\<close>

type_synonym bucketRow = "string \<times> bucketValues"

text \<open>How the bucket upsert can go wrong: \<open>bucketErr\<close> is set, or \<open>mb\<close> is null.\<close>

datatype upsertFault = UpsertError string | UpsertNoData

text \<open>
  The collaborators of one run. Each is a function of what the route passes to it:
  \<open>downloadDriveFile\<close> (by file id: thrown value or the bytes), the \<open>products\<close>
  lookup by \<open>sku_label\<close> (what \<open>product?.id\<close> evaluates to, \<open>None\<close> when
  \<open>.single()\<close> gives no row), a fault of the bucket upsert (by \<open>sku_label\<close>),
  \<open>uploadObject\<close> (bucket, key, body, content type: the value it throws, if any),
  the error of the \<open>media_assets\<close> insert for a file (\<open>assetErr.message\<close>), the
  value of \<open>new Date().toISOString()\<close>, and the id the store gives to a new
  \<open>media_buckets\<close> row (by the number of rows before it).
\<close>

record pipelineEnv =
  downloadDriveFile :: "string \<Rightarrow> thrown + string"
  productIdFor :: "string \<Rightarrow> string option"
  bucketUpsertFault :: "string \<Rightarrow> upsertFault option"
  uploadObject :: "string \<Rightarrow> string \<Rightarrow> string \<Rightarrow> string \<Rightarrow> thrown option"
  assetInsertError :: "RemoteFile \<Rightarrow> string option"
  nowIso :: string
  newBucketId :: "nat \<Rightarrow> string"

text \<open>
  The state of a run: the counters, the bucket cache (\<open>sku_label\<close> to \<open>id\<close> and
  \<open>storjPath\<close>), and the three stores written to: the rows of \<open>media_buckets\<close>
  and of \<open>media_assets\<close> and the objects in storage. An insert or an upload that
  reports no error adds what was written at the end of its store; one that fails adds
  nothing.
\<close>

record pipelineState =
  report :: results
  bucketCache :: "string \<rightharpoonup> (string \<times> string)"
  media_buckets :: "bucketRow list"
  media_assets :: "mediaAsset list"
  objects :: "storedObject list"

subsection \<open>String helpers\<close>

text \<open>\<open>String.prototype.split\<close> on a one-character separator.\<close>

fun splitOn :: "char \<Rightarrow> string \<Rightarrow> string list" where
  "splitOn sep [] = [[]]"
| "splitOn sep (ch # cs) =
     (if ch = sep then [] # splitOn sep cs
      else (case splitOn sep cs of
              p # ps \<Rightarrow> (ch # p) # ps
            | [] \<Rightarrow> [[ch]]))"

definition startsWith :: "string \<Rightarrow> string \<Rightarrow> bool" where
  "startsWith s p = (take (length p) s = p)"

text \<open>\<open>file.path.split('/').slice(0, -1).join('/')\<close> (lines 88 and 133).\<close>

definition folderPath :: "string \<Rightarrow> string" where
  "folderPath p = join ''/'' (butlast (splitOn (CHR ''/'') p))"

text \<open>\<open>pathParts[0]\<close> (lines 57-58).\<close>

definition skuLabelOf :: "RemoteFile \<Rightarrow> string" where
  "skuLabelOf file = (case splitOn (CHR ''/'') (path file) of p # ps \<Rightarrow> p | [] \<Rightarrow> [])"

text \<open>\<open>[basePath, file.path].filter(Boolean).join('/')\<close> (line 111).\<close>

definition objectKey :: "string \<Rightarrow> RemoteFile \<Rightarrow> string" where
  "objectKey basePath file = join ''/'' (filter (\<lambda>s. s \<noteq> []) [basePath, path file])"

text \<open>\<open>[basePath, `products/${skuLabel}/`].filter(Boolean).join('')\<close> (line 78).\<close>

definition storjPathFor :: "string \<Rightarrow> string \<Rightarrow> string" where
  "storjPathFor basePath skuLabel =
     join [] (filter (\<lambda>s. s \<noteq> []) [basePath, ''products/'' @ skuLabel @ ''/''])"

definition mediaTypeOf :: "string \<Rightarrow> string" where
  "mediaTypeOf mime =
     (if startsWith mime ''image/'' then ''image''
      else if startsWith mime ''video/'' then ''video''
      else ''file'')"

subsection \<open>The record store\<close>

text \<open>
  Modelled from the spec: the upsert of the record-store collaborator (Supabase's
  \<open>upsert\<close> with \<open>onConflict: 'product_id'\<close>, whose code is not in the repository).
  The spec (section 6) says it "exposes upsert-by-unique-key and insert operations over
  typed tables; the pipeline treats conflicts on the grouping key as already exists, return
  existing". So: a row whose conflict column \<open>product_id\<close> equals the new one keeps its
  id and takes the new columns (\<open>ignoreDuplicates: false\<close>); when there is none, a row
  with a new id is added. The row written is returned.
\<close>

definition upsertBucket :: "string \<Rightarrow> bucketValues \<Rightarrow> bucketRow list \<Rightarrow> bucketRow \<times> bucketRow list" where
  "upsertBucket freshId v tbl =
     (case find (\<lambda>r. product_id (snd r) = product_id v) tbl of
        Some r \<Rightarrow>
          ((fst r, v),
           map (\<lambda>x. if product_id (snd x) = product_id v then (fst x, v) else x) tbl)
      | None \<Rightarrow> ((freshId, v), tbl @ [(freshId, v)]))"

subsection \<open>The loop\<close>

definition bumpUploaded :: "pipelineState \<Rightarrow> pipelineState" where
  "bumpUploaded s = s\<lparr>report := (report s)\<lparr>uploaded := uploaded (report s) + 1\<rparr>\<rparr>"

definition bumpAssetsCreated :: "pipelineState \<Rightarrow> pipelineState" where
  "bumpAssetsCreated s = s\<lparr>report := (report s)\<lparr>assetsCreated := assetsCreated (report s) + 1\<rparr>\<rparr>"

definition bumpBucketsCreated :: "pipelineState \<Rightarrow> pipelineState" where
  "bumpBucketsCreated s = s\<lparr>report := (report s)\<lparr>bucketsCreated := bucketsCreated (report s) + 1\<rparr>\<rparr>"

definition bumpSkippedNoProduct :: "pipelineState \<Rightarrow> pipelineState" where
  "bumpSkippedNoProduct s =
     s\<lparr>report := (report s)\<lparr>skippedNoProduct := skippedNoProduct (report s) + 1\<rparr>\<rparr>"

text \<open>
  Lines 65-109: the bucket of a \<open>sku_label\<close>, from the cache or from the store. The
  result is the bucket info, \<open>continue\<close> (no product), or a throw. The returned row
  always has an id, so line 101 always counts.
\<close>

datatype bucketOutcome = BucketInfo "string \<times> string" | NoProduct | BucketThrow thrown

definition resolveBucket ::
  "pipelineEnv \<Rightarrow> string \<Rightarrow> RemoteFile \<Rightarrow> string \<Rightarrow> pipelineState \<Rightarrow> bucketOutcome \<times> pipelineState" where
  "resolveBucket env basePath file skuLabel s =
     (case bucketCache s skuLabel of
        Some bucketInfo \<Rightarrow> (BucketInfo bucketInfo, s)
      | None \<Rightarrow>
          (case productIdFor env skuLabel of
             None \<Rightarrow> (NoProduct, bumpSkippedNoProduct s)
           | Some pid \<Rightarrow>
               if pid = [] then (NoProduct, bumpSkippedNoProduct s)
               else
                 (let storjPath = storjPathFor basePath skuLabel;
                      v = \<lparr>product_id = pid, sku_label = skuLabel, storj_path = storjPath,
                           bucket_status = ''active'',
                           google_drive_folder_path = folderPath (path file),
                           last_upload_at = nowIso env\<rparr>
                  in case bucketUpsertFault env skuLabel of
                       Some (UpsertError m) \<Rightarrow>
                         (BucketThrow (ThrownError
                            (''Bucket upsert failed for '' @ skuLabel @ '': '' @ m)), s)
                     | Some UpsertNoData \<Rightarrow>
                         (BucketThrow (ThrownError
                            (''Bucket upsert returned no data for '' @ skuLabel)), s)
                     | None \<Rightarrow>
                         (let (mb, tbl) =
                                upsertBucket (newBucketId env (length (media_buckets s))) v
                                  (media_buckets s);
                              bucketInfo = (fst mb, storj_path (snd mb));
                              s1 = bumpBucketsCreated (s\<lparr>media_buckets := tbl\<rparr>)
                          in (BucketInfo bucketInfo,
                              s1\<lparr>bucketCache := (bucketCache s1)(skuLabel \<mapsto> bucketInfo)\<rparr>)))))"

text \<open>
  The body of the \<open>try\<close> block for one file (lines 56-141): it runs to its end, leaves
  by \<open>continue\<close>, or throws.
\<close>

datatype fileOutcome = Completed | Continued | Threw thrown

definition fileBody ::
  "pipelineEnv \<Rightarrow> string \<Rightarrow> string \<Rightarrow> RemoteFile \<Rightarrow> pipelineState \<Rightarrow> fileOutcome \<times> pipelineState" where
  "fileBody env bucket basePath file s =
     (case downloadDriveFile env (fileId file) of
        Inl t \<Rightarrow> (Threw t, s)
      | Inr buffer \<Rightarrow>
          (let skuLabel = skuLabelOf file
           in if skuLabel = [] then (Threw (ThrownError ''Missing SKU label in path''), s)
              else
                (case resolveBucket env basePath file skuLabel s of
                   (NoProduct, s1) \<Rightarrow> (Continued, s1)
                 | (BucketThrow t, s1) \<Rightarrow> (Threw t, s1)
                 | (BucketInfo bucketInfo, s1) \<Rightarrow>
                     (let key = objectKey basePath file
                      in case uploadObject env bucket key buffer (mimeType file) of
                           Some t \<Rightarrow> (Threw t, s1)
                         | None \<Rightarrow>
                             (let s2 = bumpUploaded
                                         (s1\<lparr>objects := objects s1 @ [(bucket, key, buffer, mimeType file)]\<rparr>);
                                  row = \<lparr>media_bucket_id = fst bucketInfo,
                                         media_type = mediaTypeOf (mimeType file),
                                         workflow_state = ''imported'',
                                         workflow_category = ''raw'',
                                         file_url = ''storj://'' @ bucket @ ''/'' @ key,
                                         file_key = key,
                                         file_size = length buffer,
                                         file_mime_type = mimeType file,
                                         original_filename = name file,
                                         source_folder_path = path file,
                                         google_drive_file_id = fileId file,
                                         asset_folder_path = folderPath (path file),
                                         import_source = ''google_drive''\<rparr>
                              in case assetInsertError env file of
                                   Some m \<Rightarrow>
                                     (Threw (ThrownError
                                        (''Asset insert failed for '' @ path file @ '': '' @ m)), s2)
                                 | None \<Rightarrow>
                                     (Completed,
                                      bumpAssetsCreated
                                        (s2\<lparr>media_assets := media_assets s2 @ [row]\<rparr>)))))))"

text \<open>One turn of the \<open>for\<close> loop: the \<open>try\<close> block and its \<open>catch\<close> (lines 142-148).\<close>

definition processFile ::
  "pipelineEnv \<Rightarrow> string \<Rightarrow> string \<Rightarrow> RemoteFile \<Rightarrow> pipelineState \<Rightarrow> pipelineState" where
  "processFile env bucket basePath file s =
     (case fileBody env bucket basePath file s of
        (Threw t, s1) \<Rightarrow>
          s1\<lparr>report := (report s1)
               \<lparr>failed := failed (report s1) + 1,
                errors' := errors' (report s1) @
                  [ItemError (path file)
                     (case t of ThrownError m \<Rightarrow> m | ThrownOther \<Rightarrow> ''Unknown error'')]\<rparr>\<rparr>
      | (_, s1) \<Rightarrow> s1)"

fun importLoop ::
  "pipelineEnv \<Rightarrow> string \<Rightarrow> string \<Rightarrow> RemoteFile list \<Rightarrow> pipelineState \<Rightarrow> pipelineState" where
  "importLoop env bucket basePath [] s = s"
| "importLoop env bucket basePath (file # files) s =
     importLoop env bucket basePath files (processFile env bucket basePath file s)"

text \<open>The three stores a run starts from and leaves behind.\<close>

record stores =
  bucketTable :: "bucketRow list"
  assetTable :: "mediaAsset list"
  objectStore :: "storedObject list"

text \<open>Lines 39-149: fresh counters and an empty cache, then the loop over the files.\<close>

definition importRun ::
  "pipelineEnv \<Rightarrow> string \<Rightarrow> string \<Rightarrow> RemoteFile list \<Rightarrow> stores \<Rightarrow> pipelineState" where
  "importRun env bucket basePath files st =
     importLoop env bucket basePath files
       \<lparr>report = \<lparr>total = length files, uploaded = 0, failed = 0, errors' = [],
                  assetsCreated = 0, bucketsCreated = 0, skippedNoProduct = 0\<rparr>,
        bucketCache = Map.empty,
        media_buckets = bucketTable st,
        media_assets = assetTable st,
        objects = objectStore st\<rparr>"

definition storesOf :: "pipelineState \<Rightarrow> stores" where
  "storesOf s =
     \<lparr>bucketTable = media_buckets s, assetTable = media_assets s, objectStore = objects s\<rparr>"


subsection \<open>Notions used to state and prove the properties of a run\<close>

text \<open>
  The accounting of a report after \<open>n\<close> items: each item went to exactly one of
  \<open>assetsCreated\<close>, \<open>skippedNoProduct\<close> and \<open>failed\<close>, there is one error entry
  per failed item, and \<open>uploaded\<close> lies between the items completed and the items
  completed or failed.
\<close>

definition accounted :: "results \<Rightarrow> nat \<Rightarrow> bool" where
  "accounted r n =
     (assetsCreated r + skippedNoProduct r + failed r = n \<and>
      length (errors' r) = failed r \<and>
      assetsCreated r \<le> uploaded r \<and>
      uploaded r \<le> assetsCreated r + failed r)"

text \<open>
  The turn for this file reaches the bucket upsert of line 80 and the upsert goes through:
  the download worked, the label is not empty and not cached, a product exists, and the
  store reports no fault.
\<close>

definition willUpsert :: "pipelineEnv \<Rightarrow> RemoteFile \<Rightarrow> pipelineState \<Rightarrow> bool" where
  "willUpsert env file s =
     (case downloadDriveFile env (fileId file) of
        Inl t \<Rightarrow> False
      | Inr buffer \<Rightarrow>
          skuLabelOf file \<noteq> [] \<and> bucketCache s (skuLabelOf file) = None \<and>
          (case productIdFor env (skuLabelOf file) of None \<Rightarrow> False | Some pid \<Rightarrow> pid \<noteq> []) \<and>
          bucketUpsertFault env (skuLabelOf file) = None)"

text \<open>The columns that turn writes (lines 83-90).\<close>

definition bucketValuesOf :: "pipelineEnv \<Rightarrow> string \<Rightarrow> RemoteFile \<Rightarrow> bucketValues" where
  "bucketValuesOf env basePath file =
     \<lparr>product_id = (case productIdFor env (skuLabelOf file) of Some pid \<Rightarrow> pid | None \<Rightarrow> []),
      sku_label = skuLabelOf file,
      storj_path = storjPathFor basePath (skuLabelOf file),
      bucket_status = ''active'',
      google_drive_folder_path = folderPath (path file),
      last_upload_at = nowIso env\<rparr>"

text \<open>The conflict keys present in \<open>media_buckets\<close>.\<close>

definition bucketKeys :: "bucketRow list \<Rightarrow> string set" where
  "bucketKeys tbl = set (map (\<lambda>r. product_id (snd r)) tbl)"

text \<open>Every row of \<open>media_buckets\<close> belongs to the product that its label leads to.\<close>

definition ownersAgree :: "pipelineEnv \<Rightarrow> bucketRow list \<Rightarrow> bool" where
  "ownersAgree env tbl =
     list_all (\<lambda>r. productIdFor env (sku_label (snd r)) = Some (product_id (snd r))) tbl"

text \<open>Every cached label has a product.\<close>

definition cacheSound :: "pipelineEnv \<Rightarrow> pipelineState \<Rightarrow> bool" where
  "cacheSound env s =
     (\<forall>k\<in>dom (bucketCache s).
        (case productIdFor env k of None \<Rightarrow> False | Some pid \<Rightarrow> pid \<noteq> []))"

text \<open>
  What the five-item scenario follows through a run: \<open>uploaded\<close>,
  \<open>assetsCreated\<close>, \<open>skippedNoProduct\<close>, \<open>failed\<close>, the error entries, and the
  Drive ids of the assets recorded.
\<close>

definition progress ::
  "pipelineState \<Rightarrow> nat \<times> nat \<times> nat \<times> nat \<times> itemError list \<times> string list" where
  "progress s =
     (uploaded (report s), assetsCreated (report s), skippedNoProduct (report s),
      failed (report s), errors' (report s), map google_drive_file_id (media_assets s))"

text \<open>
  Three kinds of item. For the first every collaborator works: download, product lookup,
  bucket upsert, upload and asset insert. The second has a label without a product. For
  the third everything works but the insert into \<open>media_assets\<close>, which reports
  \<open>msg\<close>.
\<close>

definition itemSucceeds :: "pipelineEnv \<Rightarrow> string \<Rightarrow> string \<Rightarrow> RemoteFile \<Rightarrow> bool" where
  "itemSucceeds env bucket basePath file =
     ((case downloadDriveFile env (fileId file) of
         Inl t \<Rightarrow> False
       | Inr buffer \<Rightarrow>
           uploadObject env bucket (objectKey basePath file) buffer (mimeType file) = None) \<and>
      skuLabelOf file \<noteq> [] \<and>
      (case productIdFor env (skuLabelOf file) of None \<Rightarrow> False | Some pid \<Rightarrow> pid \<noteq> []) \<and>
      bucketUpsertFault env (skuLabelOf file) = None \<and>
      assetInsertError env file = None)"

definition ownerMissing :: "pipelineEnv \<Rightarrow> RemoteFile \<Rightarrow> bool" where
  "ownerMissing env file =
     ((case downloadDriveFile env (fileId file) of Inl t \<Rightarrow> False | Inr buffer \<Rightarrow> True) \<and>
      skuLabelOf file \<noteq> [] \<and>
      (case productIdFor env (skuLabelOf file) of None \<Rightarrow> True | Some pid \<Rightarrow> pid = []))"

definition persistenceThrows :: "pipelineEnv \<Rightarrow> string \<Rightarrow> string \<Rightarrow> RemoteFile \<Rightarrow> string \<Rightarrow> bool" where
  "persistenceThrows env bucket basePath file msg =
     ((case downloadDriveFile env (fileId file) of
         Inl t \<Rightarrow> False
       | Inr buffer \<Rightarrow>
           uploadObject env bucket (objectKey basePath file) buffer (mimeType file) = None) \<and>
      skuLabelOf file \<noteq> [] \<and>
      (case productIdFor env (skuLabelOf file) of None \<Rightarrow> False | Some pid \<Rightarrow> pid \<noteq> []) \<and>
      bucketUpsertFault env (skuLabelOf file) = None \<and>
      assetInsertError env file = Some msg)"


section \<open>Scenarios\<close>

text \<open>
  Concrete servers and runs on which the theorems below are evaluated. The data of a
  response is a number, or a page (nodes, \<open>hasNextPage\<close>, \<open>endCursor\<close>).
\<close>

definition throttledResponse :: "nat GraphQLResponse" where
  "throttledResponse =
     \<lparr>data = None,
      errors = Some [\<lparr>message = ''Throttled'', code = Some ''THROTTLED''\<rparr>],
      extensions = None\<rparr>"

text \<open>A server that answers every request with a \<open>THROTTLED\<close> error; the clock stands at 0.\<close>

definition alwaysThrottledEnv :: "nat env" where
  "alwaysThrottledEnv = \<lparr>fetch = (\<lambda>k req. Json throttledResponse), dateNow = (\<lambda>k. 0)\<rparr>"

text \<open>
  A server whose first answer is a GraphQL error that is not a throttling error and whose
  later answers carry data.
\<close>

definition errorThenDataEnv :: "nat env" where
  "errorThenDataEnv =
     \<lparr>fetch = (\<lambda>k req. if k = 0
                 then Json \<lparr>data = None, errors = Some [\<lparr>message = ''boom'', code = None\<rparr>], extensions = None\<rparr>
                 else Json \<lparr>data = Some 7, errors = None, extensions = None\<rparr>),
      dateNow = (\<lambda>k. 0)\<rparr>"

text \<open>A server that answers every request with two GraphQL errors, none of them throttling.\<close>

definition twoErrorsEnv :: "nat env" where
  "twoErrorsEnv =
     \<lparr>fetch = (\<lambda>k req. Json \<lparr>data = None,
                 errors = Some [\<lparr>message = ''Field x not found'', code = None\<rparr>,
                                \<lparr>message = ''Access denied'', code = Some ''ACCESS_DENIED''\<rparr>],
                 extensions = None\<rparr>),
      dateNow = (\<lambda>k. 0)\<rparr>"

text \<open>A server that answers 503 twice and then delivers data.\<close>

definition failTwiceEnv :: "nat env" where
  "failTwiceEnv =
     \<lparr>fetch = (\<lambda>k req. if k < 2 then HttpNotOk 503 ''Service Unavailable''
                         else Json \<lparr>data = Some 42, errors = None, extensions = None\<rparr>),
      dateNow = (\<lambda>k. 0)\<rparr>"

text \<open>
  A server whose responses carry data and report a throttle status of 1500 points
  available out of a maximum of 2000, restored at 100 points per second; the clock stands
  at 0.
\<close>

definition largeBucketEnv :: "nat env" where
  "largeBucketEnv =
     \<lparr>fetch = (\<lambda>k req. Json \<lparr>data = Some 1, errors = None,
                               extensions = Some (ThrottleStatus 2000 1500 100)\<rparr>),
      dateNow = (\<lambda>k. 0)\<rparr>"

text \<open>
  A paginated source of three pages with 50, 50 and 20 nodes; only the last one reports
  \<open>hasNextPage = false\<close>. The server reads the cursor from the \<open>after\<close> variable
  of the request.
\<close>

definition afterOf :: "request \<Rightarrow> string option" where
  "afterOf req =
     (case variables req of
        Some vs \<Rightarrow> (case vs ''after'' of Some (JStr s) \<Rightarrow> Some s | _ \<Rightarrow> None)
      | None \<Rightarrow> None)"

type_synonym page = "nat list \<times> bool \<times> string option"

definition firstNodes :: "nat list" where "firstNodes = [0..<50]"
definition secondNodes :: "nat list" where "secondNodes = [50..<100]"
definition thirdNodes :: "nat list" where "thirdNodes = [100..<120]"

definition threePages :: "string option \<Rightarrow> page" where
  "threePages cursor =
     (if cursor = None then (firstNodes, True, Some ''c1'')
      else if cursor = Some ''c1'' then (secondNodes, True, Some ''c2'')
      else if cursor = Some ''c2'' then (thirdNodes, False, Some ''c3'')
      else ([], False, None))"

definition threePageEnv :: "page env" where
  "threePageEnv =
     \<lparr>fetch = (\<lambda>k req. Json \<lparr>data = Some (threePages (afterOf req)), errors = None, extensions = None\<rparr>),
      dateNow = (\<lambda>k. 0)\<rparr>"

definition nodesOf :: "page \<Rightarrow> nat list" where
  "nodesOf p = fst p"

definition pageInfoOf :: "page \<Rightarrow> pageInfo" where
  "pageInfoOf p = \<lparr>hasNextPage = fst (snd p), endCursor = snd (snd p)\<rparr>"

text \<open>
  A shop with products for the labels TEE-01 and MUG-02 and none for CAP-09. Every
  collaborator works, except that the asset insert for the Drive file d4 fails.
\<close>

definition shopEnv :: pipelineEnv where
  "shopEnv =
     \<lparr>downloadDriveFile = (\<lambda>i. Inr (''bytes of '' @ i)),
      productIdFor = (\<lambda>sku. if sku = ''TEE-01'' then Some ''p1''
                             else if sku = ''MUG-02'' then Some ''p2'' else None),
      bucketUpsertFault = (\<lambda>sku. None),
      uploadObject = (\<lambda>b k body mime. None),
      assetInsertError = (\<lambda>f. if fileId f = ''d4'' then Some ''connection reset'' else None),
      nowIso = ''2024-05-01T00:00:00.000Z'',
      newBucketId = (\<lambda>n. ''bucket-'' @ digits n)\<rparr>"

definition item1 :: RemoteFile where
  "item1 = \<lparr>fileId = ''d1'', path = ''TEE-01/front.jpg'', mimeType = ''image/jpeg'', name = ''front.jpg''\<rparr>"
definition item2 :: RemoteFile where
  "item2 = \<lparr>fileId = ''d2'', path = ''TEE-01/back.jpg'', mimeType = ''image/jpeg'', name = ''back.jpg''\<rparr>"
definition item3 :: RemoteFile where
  "item3 = \<lparr>fileId = ''d3'', path = ''CAP-09/side.jpg'', mimeType = ''image/jpeg'', name = ''side.jpg''\<rparr>"
definition item4 :: RemoteFile where
  "item4 = \<lparr>fileId = ''d4'', path = ''MUG-02/spin.mp4'', mimeType = ''video/mp4'', name = ''spin.mp4''\<rparr>"
definition item5 :: RemoteFile where
  "item5 = \<lparr>fileId = ''d5'', path = ''MUG-02/top.png'', mimeType = ''image/png'', name = ''top.png''\<rparr>"

definition emptyStores :: stores where
  "emptyStores = \<lparr>bucketTable = [], assetTable = [], objectStore = []\<rparr>"


section \<open>Properties of the retry loop\<close>

lemma queryLoop_done:
  "\<not> int a < n \<Longrightarrow>
   queryLoop e req n a le c =
     (Inl (case le of Some err \<Rightarrow> err | None \<Rightarrow> Error ''Unknown error''), c)"
  by (simp add: queryLoop.simps)

lemma attemptBody_outcome:
  "fst (attemptBody e req c) = classify (fetch e (fetchCount c) req)"
  by (simp add: attemptBody_def classify_def Let_def split: fetchResult.splits option.splits list.splits)

lemma updateRateLimit_fetchCount [simp]: "fetchCount (updateRateLimit e ext c) = fetchCount c"
  by (simp add: updateRateLimit_def readClock_def split: option.splits)

lemma updateRateLimit_trace [simp]: "trace (updateRateLimit e ext c) = trace c"
  by (simp add: updateRateLimit_def readClock_def split: option.splits)

lemma emit_fetchCount [simp]: "fetchCount (emit ev c) = fetchCount c"
  by (simp add: emit_def)

lemma emit_trace [simp]: "trace (emit ev c) = trace c @ [ev]"
  by (simp add: emit_def)

lemma emit_rateLimitState [simp]: "rateLimitState (emit ev c) = rateLimitState c"
  by (simp add: emit_def)

lemma attemptBody_fetchCount [simp]:
  "fetchCount (snd (attemptBody e req c)) = Suc (fetchCount c)"
  by (simp add: attemptBody_def Let_def split: fetchResult.splits option.splits list.splits)

lemma attemptBody_trace:
  "trace (snd (attemptBody e req c)) =
     trace c @ Request req #
       (case classify (fetch e (fetchCount c) req) of Continue \<Rightarrow> [ThrottleWait 2000] | _ \<Rightarrow> [])"
  by (simp add: attemptBody_def classify_def Let_def split: fetchResult.splits option.splits list.splits)

lemma queryLoop_Return:
  assumes "int a < n" "classify (fetch e (fetchCount c) req) = Return d"
  shows "queryLoop e req n a le c = (Inr d, snd (attemptBody e req c))"
proof -
  have "fst (attemptBody e req c) = Return d" using assms(2) by (simp add: attemptBody_outcome)
  then show ?thesis using assms(1)
    by (cases "attemptBody e req c") (simp add: queryLoop.simps [of e req n a])
qed

lemma queryLoop_Continue:
  assumes "int a < n" "classify (fetch e (fetchCount c) req) = Continue"
  shows "queryLoop e req n a le c = queryLoop e req n (Suc a) le (snd (attemptBody e req c))"
proof -
  have "fst (attemptBody e req c) = Continue" using assms(2) by (simp add: attemptBody_outcome)
  then show ?thesis using assms(1)
    by (cases "attemptBody e req c") (simp add: queryLoop.simps [of e req n a])
qed

lemma queryLoop_Throw:
  assumes "int a < n" "classify (fetch e (fetchCount c) req) = Throw err"
  shows "queryLoop e req n a le c =
           queryLoop e req n (Suc a) (Some err)
             (if int a < n - 1 then emit (Backoff (2 ^ a * 1000)) (snd (attemptBody e req c))
              else snd (attemptBody e req c))"
proof -
  have "fst (attemptBody e req c) = Throw err" using assms(2) by (simp add: attemptBody_outcome)
  then show ?thesis using assms(1)
    by (cases "attemptBody e req c") (simp add: queryLoop.simps [of e req n a])
qed

lemma waitForRateLimit_fetchCount [simp]: "fetchCount (waitForRateLimit e cost c) = fetchCount c"
  by (simp add: waitForRateLimit_def readClock_def split: option.splits)

lemma waitForRateLimit_rateLimitState [simp]:
  "rateLimitState (waitForRateLimit e cost c) = rateLimitState c"
  by (simp add: waitForRateLimit_def readClock_def split: option.splits)

lemma requestsOf_append [simp]: "requestsOf (xs @ ys) = requestsOf xs @ requestsOf ys"
  by (induction xs rule: requestsOf.induct) simp_all

lemma waitForRateLimit_requests [simp]:
  "requestsOf (trace (waitForRateLimit e cost c)) = requestsOf (trace c)"
  by (simp add: waitForRateLimit_def readClock_def split: option.splits)

text \<open>Every attempt is one request, whatever its outcome, and the loop makes at most
  \<open>retries - attempt\<close> of them.\<close>

lemma queryLoop_fetch_bound:
  "fetchCount (snd (queryLoop e req n a le c)) \<le> fetchCount c + nat (n - int a)"
proof (induction "nat (n - int a)" arbitrary: a le c)
  case 0
  then have "\<not> int a < n" by simp
  then show ?case by (simp add: queryLoop_done)
next
  case (Suc k)
  then have lt: "int a < n" and k: "k = nat (n - int (Suc a))" by simp_all
  show ?case
  proof (cases "classify (fetch e (fetchCount c) req)")
    case (Return d)
    then show ?thesis using lt by (simp add: queryLoop_Return)
  next
    case Continue
    have "fetchCount (snd (queryLoop e req n (Suc a) le (snd (attemptBody e req c))))
            \<le> fetchCount (snd (attemptBody e req c)) + nat (n - int (Suc a))"
      using Suc.hyps(1) [OF k] .
    then show ?thesis using lt Continue by (simp add: queryLoop_Continue)
  next
    case (Throw err)
    let ?c' = "if int a < n - 1 then emit (Backoff (2 ^ a * 1000)) (snd (attemptBody e req c))
               else snd (attemptBody e req c)"
    have "fetchCount (snd (queryLoop e req n (Suc a) (Some err) ?c'))
            \<le> fetchCount ?c' + nat (n - int (Suc a))"
      using Suc.hyps(1) [OF k] .
    moreover have "fetchCount ?c' = Suc (fetchCount c)" by simp
    ultimately show ?thesis using lt Throw by (simp add: queryLoop_Throw)
  qed
qed

text \<open>A server that always answers "throttled".\<close>

lemma queryLoop_always_throttled:
  assumes "\<And>k. classify (fetch e k req) = Continue"
  shows "fst (queryLoop e req n a le c) =
           Inl (case le of Some err \<Rightarrow> err | None \<Rightarrow> Error ''Unknown error'') \<and>
         fetchCount (snd (queryLoop e req n a le c)) = fetchCount c + nat (n - int a) \<and>
         trace (snd (queryLoop e req n a le c)) =
           trace c @ concat (replicate (nat (n - int a)) [Request req, ThrottleWait 2000])"
proof (induction "nat (n - int a)" arbitrary: a c)
  case 0
  then have "\<not> int a < n" by simp
  then show ?case using 0 by (simp add: queryLoop_done)
next
  case (Suc k)
  then have lt: "int a < n" and k: "k = nat (n - int (Suc a))" by simp_all
  have step: "queryLoop e req n a le c = queryLoop e req n (Suc a) le (snd (attemptBody e req c))"
    using lt assms by (rule queryLoop_Continue)
  have tr: "trace (snd (attemptBody e req c)) = trace c @ [Request req, ThrottleWait 2000]"
    by (simp add: attemptBody_trace assms)
  have n: "nat (n - int a) = Suc (nat (n - int (Suc a)))" using lt by simp
  show ?case
    using Suc.hyps(1) [OF k, of "snd (attemptBody e req c)"]
    by (simp only: step tr n) simp
qed

text \<open>A run of failing attempts: each is one request, followed by its backoff unless it is the last attempt.\<close>

lemma queryLoop_failures:
  assumes "\<And>i. i < k \<Longrightarrow> classify (fetch e (fetchCount c + i) req) = Throw (errs i)"
      and "int a + int k \<le> n"
  shows "\<exists>c'. queryLoop e req n a le c =
                 queryLoop e req n (a + k) (if k = 0 then le else Some (errs (k - 1))) c' \<and>
              fetchCount c' = fetchCount c + k \<and>
              trace c' = trace c @
                concat (map (\<lambda>i. Request req #
                              (if int (a + i) < n - 1 then [Backoff (2 ^ (a + i) * 1000)] else []))
                          [0..<k])"
  using assms
proof (induction k)
  case 0
  show ?case by (rule exI [of _ c]) simp
next
  case (Suc k)
  have "\<And>i. i < k \<Longrightarrow> classify (fetch e (fetchCount c + i) req) = Throw (errs i)"
    using Suc.prems(1) by simp
  moreover have "int a + int k \<le> n" using Suc.prems(2) by simp
  ultimately obtain c' where
    eq: "queryLoop e req n a le c =
           queryLoop e req n (a + k) (if k = 0 then le else Some (errs (k - 1))) c'" and
    fc: "fetchCount c' = fetchCount c + k" and
    tr: "trace c' = trace c @
           concat (map (\<lambda>i. Request req #
                         (if int (a + i) < n - 1 then [Backoff (2 ^ (a + i) * 1000)] else []))
                     [0..<k])"
    using Suc.IH by blast
  have lt: "int (a + k) < n" using Suc.prems(2) by simp
  have cl: "classify (fetch e (fetchCount c') req) = Throw (errs k)"
    using Suc.prems(1) [of k] by (simp add: fc)
  let ?b = "snd (attemptBody e req c')"
  let ?c'' = "if int (a + k) < n - 1 then emit (Backoff (2 ^ (a + k) * 1000)) ?b else ?b"
  have step: "queryLoop e req n (a + k) (if k = 0 then le else Some (errs (k - 1))) c' =
          queryLoop e req n (Suc (a + k)) (Some (errs k)) ?c''"
    using queryLoop_Throw [OF lt cl] .
  have "fetchCount ?c'' = fetchCount c + Suc k" by (simp add: fc)
  moreover have "trace ?c'' = trace c @
           concat (map (\<lambda>i. Request req #
                         (if int (a + i) < n - 1 then [Backoff (2 ^ (a + i) * 1000)] else []))
                     [0..<Suc k])"
    by (simp add: attemptBody_trace cl tr)
  moreover have "queryLoop e req n a le c =
      queryLoop e req n (a + Suc k) (if Suc k = 0 then le else Some (errs (Suc k - 1))) ?c''"
    using eq step by simp
  ultimately show ?case by blast
qed

lemma classify_failTwice:
  "classify (fetch failTwiceEnv k r) =
     (if k < 2 then Throw (Error ''HTTP 503: Service Unavailable'') else Return 42)"
  by (simp add: failTwiceEnv_def classify_def digits.simps)

text \<open>The rate limit state changes only where a response reports its throttle status.\<close>

lemma attemptBody_rateLimitState:
  "rateLimitState (snd (attemptBody e req c)) = rateLimitState c \<or>
   (\<exists>json ts. fetch e (fetchCount c) req = Json json \<and> extensions json = Some ts \<and>
      rateLimitState (snd (attemptBody e req c)) =
        \<lparr>available = currentlyAvailable ts, restoreRate = reportedRestoreRate ts,
         lastUpdate = dateNow e (clockReads c)\<rparr>)"
  by (auto simp add: attemptBody_def Let_def updateRateLimit_def readClock_def emit_def
      split: fetchResult.splits option.splits list.splits)

lemma queryLoop_invariant:
  assumes "P c"
      and "\<And>c. P c \<Longrightarrow> P (snd (attemptBody e req c))"
      and "\<And>c ev. P c \<Longrightarrow> P (emit ev c)"
  shows "P (snd (queryLoop e req n a le c))"
  using assms(1)
proof (induction "nat (n - int a)" arbitrary: a le c)
  case 0
  then have "\<not> int a < n" by simp
  then show ?case using 0 by (simp add: queryLoop_done)
next
  case (Suc k)
  then have lt: "int a < n" and k: "k = nat (n - int (Suc a))" by simp_all
  have b: "P (snd (attemptBody e req c))" using Suc.prems assms(2) by blast
  show ?case
  proof (cases "classify (fetch e (fetchCount c) req)")
    case (Return d)
    then show ?thesis using lt b by (simp add: queryLoop_Return)
  next
    case Continue
    then show ?thesis using lt Suc.hyps(1) [OF k b] by (simp add: queryLoop_Continue)
  next
    case (Throw err)
    have "P (if int a < n - 1 then emit (Backoff (2 ^ a * 1000)) (snd (attemptBody e req c))
               else snd (attemptBody e req c))"
      using b assms(3) by simp
    from Suc.hyps(1) [OF k this] show ?thesis using lt Throw by (simp only: queryLoop_Throw)
  qed
qed

lemma wait_pos: "0 < (x::real) \<Longrightarrow> 0 < x * 1000 + 100"
  by linarith

lemma wait_mono: "(x::real) \<le> y \<Longrightarrow> x * 1000 + 100 \<le> y * 1000 + 100"
  by linarith

lemma wait_strict_mono: "(x::real) < y \<Longrightarrow> x * 1000 + 100 < y * 1000 + 100"
  by linarith

lemma largeBucket_first_query: "snd (query largeBucketEnv ''q'' None None (newClient largeBucketEnv)) =
   \<lparr>rateLimitState = \<lparr>available = 1500, restoreRate = 100, lastUpdate = 0\<rparr>,
    fetchCount = 1, clockReads = 3, trace = [Request \<lparr>queryText = ''q'', variables = None\<rparr>]\<rparr>"
  by (simp add: query_def largeBucketEnv_def newClient_def
      waitForRateLimit_def waitForRateLimit_at_def readClock_def queryLoop.simps attemptBody_def
      updateRateLimit_def emit_def)

section \<open>Properties of the pagination loop\<close>

lemma query_Return:
  assumes "classify (fetch e (fetchCount c) \<lparr>queryText = q, variables = vars\<rparr>) = Return d"
  shows "\<exists>c'. query e q vars None c = (Inr d, c') \<and>
              fetchCount c' = Suc (fetchCount c) \<and>
              requestsOf (trace c') = requestsOf (trace c) @ [\<lparr>queryText = q, variables = vars\<rparr>]"
proof -
  let ?req = "\<lparr>queryText = q, variables = vars\<rparr>"
  let ?c1 = "waitForRateLimit e 100 c"
  have "queryLoop e ?req 3 0 None ?c1 = (Inr d, snd (attemptBody e ?req ?c1))"
    using assms by (intro queryLoop_Return) simp_all
  then have "query e q vars None c = (Inr d, snd (attemptBody e ?req ?c1))"
    by (simp add: query_def)
  moreover have "requestsOf (trace (snd (attemptBody e ?req ?c1))) = requestsOf (trace c) @ [?req]"
    using assms by (simp add: attemptBody_trace)
  ultimately show ?thesis by simp
qed

lemma paginateLoop_stop:
  "paginateLoop fuel e q vars gpi gn ps False cu yielded c = Some (yielded, None, c)"
  by (cases fuel) simp_all

lemma paginateLoop_walk:
  assumes src: "\<And>k cu. classify (fetch e k \<lparr>queryText = q, variables = Some (pageVariables vars ps cu)\<rparr>)
                          = Return (page cu)"
  shows "map (\<lambda>cu. hasNextPage (gpi (page cu))) (cursorChain (\<lambda>cu. gpi (page cu)) n cu) =
           replicate (n - 1) True @ [False] \<Longrightarrow>
         (n \<le> fuel \<longrightarrow>
           (\<exists>c'. paginateLoop fuel e q vars gpi gn ps True cu yielded c =
                   Some (yielded @ filter (\<lambda>ns. ns \<noteq> [])
                                     (map (\<lambda>cu. gn (page cu)) (cursorChain (\<lambda>cu. gpi (page cu)) n cu)),
                         None, c') \<and>
                 fetchCount c' = fetchCount c + n \<and>
                 requestsOf (trace c') = requestsOf (trace c) @
                   map (\<lambda>cu. \<lparr>queryText = q, variables = Some (pageVariables vars ps cu)\<rparr>)
                       (cursorChain (\<lambda>cu. gpi (page cu)) n cu))) \<and>
         (fuel < n \<longrightarrow> paginateLoop fuel e q vars gpi gn ps True cu yielded c = None)"
proof (induction n arbitrary: fuel cu yielded c)
  case 0
  then show ?case by simp
next
  case (Suc n)
  let ?info = "\<lambda>cu. gpi (page cu)"
  let ?req = "\<lparr>queryText = q, variables = Some (pageVariables vars ps cu)\<rparr>"
  let ?cu' = "endCursor (?info cu)"
  let ?y' = "if length (gn (page cu)) > 0 then yielded @ [gn (page cu)] else yielded"
  show ?case
  proof (cases fuel)
    case 0
    then show ?thesis by simp
  next
    case (Suc fuel')
    obtain c1 where
      q: "query e q (Some (pageVariables vars ps cu)) None c = (Inr (page cu), c1)" and
      fc: "fetchCount c1 = Suc (fetchCount c)" and
      rq: "requestsOf (trace c1) = requestsOf (trace c) @ [?req]"
      using query_Return [OF src] by blast
    have unfold: "paginateLoop fuel e q vars gpi gn ps True cu yielded c =
            paginateLoop fuel' e q vars gpi gn ps (hasNextPage (?info cu)) ?cu' ?y' c1"
      by (simp add: Suc q Let_def)
    show ?thesis
    proof (cases n)
      case 0
      then have "\<not> hasNextPage (?info cu)" using Suc.prems by simp
      then show ?thesis
        using 0 unfold fc rq by (simp add: paginateLoop_stop)
    next
      case (Suc n')
      then have hd: "hasNextPage (?info cu)" and
        tl: "map (\<lambda>cu. hasNextPage (gpi (page cu))) (cursorChain ?info n ?cu') =
               replicate (n - 1) True @ [False]"
        using Suc.prems by simp_all
      note ih = Suc.IH [OF tl, of fuel' ?y' c1]
      show ?thesis
        using ih hd unfold fc rq \<open>fuel = Suc fuel'\<close> by auto
    qed
  qed
qed

lemma threePages_chain:
  "cursorChain (\<lambda>cu. pageInfoOf (threePages cu)) 3 None = [None, Some ''c1'', Some ''c2'']"
  by (simp add: numeral_3_eq_3 pageInfoOf_def threePages_def)

section \<open>Properties of the import loop\<close>

lemmas bump_defs = bumpUploaded_def bumpAssetsCreated_def bumpBucketsCreated_def
  bumpSkippedNoProduct_def

lemma resolveBucket_report:
  "resolveBucket env basePath file sku s = (out, s1) \<Longrightarrow>
     total (report s1) = total (report s) \<and> uploaded (report s1) = uploaded (report s) \<and>
     failed (report s1) = failed (report s) \<and> errors' (report s1) = errors' (report s) \<and>
     assetsCreated (report s1) = assetsCreated (report s) \<and>
     skippedNoProduct (report s1) = skippedNoProduct (report s) + (if out = NoProduct then 1 else 0) \<and>
     media_assets s1 = media_assets s \<and> objects s1 = objects s"
  by (auto simp add: resolveBucket_def Let_def bump_defs
      split: option.splits if_splits upsertFault.splits prod.splits)

lemma processFile_accounted:
  assumes "accounted (report s) n"
  shows "accounted (report (processFile env bucket basePath file s)) (Suc n) \<and>
         total (report (processFile env bucket basePath file s)) = total (report s)"
proof (cases "resolveBucket env basePath file (skuLabelOf file) s")
  case (Pair out s1)
  note rb = resolveBucket_report [OF Pair]
  show ?thesis
    using assms rb
    by (cases out)
       (auto simp add: processFile_def fileBody_def Let_def Pair accounted_def bump_defs
          split: sum.splits option.splits)
qed

lemma importLoop_accounted:
  "accounted (report s) n \<Longrightarrow>
     accounted (report (importLoop env bucket basePath files s)) (n + length files) \<and>
     total (report (importLoop env bucket basePath files s)) = total (report s)"
proof (induction files arbitrary: s n)
  case Nil
  then show ?case by simp
next
  case (Cons f fs)
  from processFile_accounted [OF Cons.prems, of env bucket basePath f]
  have a: "accounted (report (processFile env bucket basePath f s)) (Suc n)"
    and t: "total (report (processFile env bucket basePath f s)) = total (report s)"
    by simp_all
  from Cons.IH [OF a] t show ?case by simp
qed

lemma find_SomeD: "find P xs = Some x \<Longrightarrow> x \<in> set xs \<and> P x"
  by (induction xs) (auto split: if_splits)

lemma upsert_map_keys:
  "map (\<lambda>r. product_id (snd r))
     (map (\<lambda>x. if product_id (snd x) = product_id v then (fst x, v) else x) tbl) =
   map (\<lambda>r. product_id (snd r)) tbl"
  by (induction tbl) auto

lemma upsertBucket_key_list:
  "map (\<lambda>r. product_id (snd r)) (snd (upsertBucket i v tbl)) =
     (if product_id v \<in> bucketKeys tbl
      then map (\<lambda>r. product_id (snd r)) tbl
      else map (\<lambda>r. product_id (snd r)) tbl @ [product_id v])"
proof (cases "find (\<lambda>r. product_id (snd r) = product_id v) tbl")
  case None
  then have "\<forall>x\<in>set tbl. product_id (snd x) \<noteq> product_id v"
    by (auto simp add: find_None_iff)
  then have "product_id v \<notin> bucketKeys tbl"
    by (force simp add: bucketKeys_def)
  then show ?thesis using None by (simp add: upsertBucket_def)
next
  case (Some r)
  from find_SomeD [OF Some] have "product_id v \<in> bucketKeys tbl"
    by (force simp add: bucketKeys_def)
  then show ?thesis using Some by (simp add: upsertBucket_def upsert_map_keys)
qed

lemma upsertBucket_keys:
  "bucketKeys (snd (upsertBucket i v tbl)) = insert (product_id v) (bucketKeys tbl)"
  unfolding bucketKeys_def [of "snd (upsertBucket i v tbl)"] upsertBucket_key_list
  by (auto simp add: bucketKeys_def)

lemma upsertBucket_length:
  "length (snd (upsertBucket i v tbl)) =
     (if product_id v \<in> bucketKeys tbl then length tbl else Suc (length tbl))"
  using arg_cong [OF upsertBucket_key_list [of i v tbl], of length]
  by (simp split: if_splits)

lemma upsertBucket_distinct:
  assumes "distinct (map (\<lambda>r. product_id (snd r)) tbl)"
  shows "distinct (map (\<lambda>r. product_id (snd r)) (snd (upsertBucket i v tbl)))"
  using assms unfolding upsertBucket_key_list by (simp add: bucketKeys_def)

lemma resolveBucket_buckets:
  "media_buckets (snd (resolveBucket env basePath file (skuLabelOf file) s)) =
     (if bucketCache s (skuLabelOf file) = None \<and>
         (case productIdFor env (skuLabelOf file) of None \<Rightarrow> False | Some pid \<Rightarrow> pid \<noteq> []) \<and>
         bucketUpsertFault env (skuLabelOf file) = None
      then snd (upsertBucket (newBucketId env (length (media_buckets s)))
                  (bucketValuesOf env basePath file) (media_buckets s))
      else media_buckets s)"
  by (auto simp add: resolveBucket_def Let_def bump_defs bucketValuesOf_def
      split: option.splits upsertFault.splits prod.splits)

lemma resolveBucket_cache:
  "dom (bucketCache (snd (resolveBucket env basePath file (skuLabelOf file) s))) =
     (if bucketCache s (skuLabelOf file) = None \<and>
         (case productIdFor env (skuLabelOf file) of None \<Rightarrow> False | Some pid \<Rightarrow> pid \<noteq> []) \<and>
         bucketUpsertFault env (skuLabelOf file) = None
      then insert (skuLabelOf file) (dom (bucketCache s))
      else dom (bucketCache s))"
  by (auto simp add: resolveBucket_def Let_def bump_defs
      split: option.splits upsertFault.splits prod.splits)

lemma fileBody_buckets:
  "media_buckets (snd (fileBody env bucket basePath file s)) =
     (case downloadDriveFile env (fileId file) of
        Inl t \<Rightarrow> media_buckets s
      | Inr buffer \<Rightarrow>
          if skuLabelOf file = [] then media_buckets s
          else media_buckets (snd (resolveBucket env basePath file (skuLabelOf file) s)))"
  by (cases "resolveBucket env basePath file (skuLabelOf file) s")
     (auto simp add: fileBody_def Let_def bump_defs
        split: sum.splits option.splits bucketOutcome.splits)

lemma fileBody_cache:
  "bucketCache (snd (fileBody env bucket basePath file s)) =
     (case downloadDriveFile env (fileId file) of
        Inl t \<Rightarrow> bucketCache s
      | Inr buffer \<Rightarrow>
          if skuLabelOf file = [] then bucketCache s
          else bucketCache (snd (resolveBucket env basePath file (skuLabelOf file) s)))"
  by (cases "resolveBucket env basePath file (skuLabelOf file) s")
     (auto simp add: fileBody_def Let_def bump_defs
        split: sum.splits option.splits bucketOutcome.splits)

lemma processFile_stores:
  "media_buckets (processFile env bucket basePath file s) =
     media_buckets (snd (fileBody env bucket basePath file s)) \<and>
   bucketCache (processFile env bucket basePath file s) =
     bucketCache (snd (fileBody env bucket basePath file s))"
  by (cases "fileBody env bucket basePath file s")
     (auto simp add: processFile_def split: fileOutcome.splits)

lemma processFile_buckets:
  "media_buckets (processFile env bucket basePath file s) =
     (if willUpsert env file s
      then snd (upsertBucket (newBucketId env (length (media_buckets s)))
                  (bucketValuesOf env basePath file) (media_buckets s))
      else media_buckets s)"
  by (simp add: processFile_stores fileBody_buckets resolveBucket_buckets willUpsert_def
      split: sum.splits)

lemma processFile_cache:
  "dom (bucketCache (processFile env bucket basePath file s)) =
     (if willUpsert env file s then insert (skuLabelOf file) (dom (bucketCache s))
      else dom (bucketCache s))"
  by (simp add: processFile_stores fileBody_cache resolveBucket_cache willUpsert_def
      split: sum.splits)

lemma willUpsert_cong:
  assumes "dom (bucketCache a) = dom (bucketCache b)"
  shows "willUpsert env file a = willUpsert env file b"
proof -
  have "(bucketCache a k = None) = (bucketCache b k = None)" for k
    using assms by (metis domIff)
  then show ?thesis by (simp add: willUpsert_def split: sum.splits)
qed

lemma processFile_keys_mono:
  "bucketKeys (media_buckets s) \<subseteq> bucketKeys (media_buckets (processFile env bucket basePath file s))"
  by (auto simp add: processFile_buckets upsertBucket_keys)

lemma importLoop_keys_mono:
  "bucketKeys (media_buckets s) \<subseteq> bucketKeys (media_buckets (importLoop env bucket basePath files s))"
proof (induction files arbitrary: s)
  case Nil
  show ?case by simp
next
  case (Cons f fs)
  show ?case
    using processFile_keys_mono [of s env bucket basePath f]
          Cons.IH [of "processFile env bucket basePath f s"]
    by (simp only: importLoop.simps)
qed

lemma importLoop_distinct:
  "distinct (map (\<lambda>r. product_id (snd r)) (media_buckets s)) \<Longrightarrow>
   distinct (map (\<lambda>r. product_id (snd r)) (media_buckets (importLoop env bucket basePath files s)))"
proof (induction files arbitrary: s)
  case Nil
  then show ?case by simp
next
  case (Cons f fs)
  have "distinct (map (\<lambda>r. product_id (snd r)) (media_buckets (processFile env bucket basePath f s)))"
    using Cons.prems by (simp add: processFile_buckets upsertBucket_distinct)
  from Cons.IH [OF this] show ?case by simp
qed

lemma processFile_report_cong:
  assumes "dom (bucketCache a) = dom (bucketCache b)" and "report a = report b"
  shows "report (processFile env bucket basePath file a) =
         report (processFile env bucket basePath file b)"
proof (cases "bucketCache a (skuLabelOf file)")
  case None
  then have "bucketCache b (skuLabelOf file) = None" using assms(1) by (metis domIff)
  then show ?thesis
    using None assms(2)
    by (simp add: processFile_def fileBody_def resolveBucket_def Let_def bump_defs
        split: sum.splits option.splits upsertFault.splits prod.splits)
next
  case (Some bi)
  then obtain bi' where "bucketCache b (skuLabelOf file) = Some bi'"
    using assms(1) by (metis domIff not_Some_eq)
  then show ?thesis
    using Some assms(2)
    by (simp add: processFile_def fileBody_def resolveBucket_def Let_def bump_defs
        split: sum.splits option.splits upsertFault.splits prod.splits)
qed

lemma processFile_assets:
  "length (media_assets (processFile env bucket basePath file s)) + assetsCreated (report s) =
   length (media_assets s) + assetsCreated (report (processFile env bucket basePath file s))"
proof (cases "resolveBucket env basePath file (skuLabelOf file) s")
  case (Pair out s1)
  note rb = resolveBucket_report [OF Pair]
  show ?thesis
    using rb
    by (cases out)
       (auto simp add: processFile_def fileBody_def Let_def Pair bump_defs
          split: sum.splits option.splits)
qed

lemma importLoop_assets:
  "length (media_assets (importLoop env bucket basePath files s)) + assetsCreated (report s) =
   length (media_assets s) + assetsCreated (report (importLoop env bucket basePath files s))"
proof (induction files arbitrary: s)
  case Nil
  show ?case by simp
next
  case (Cons f fs)
  show ?case
    using processFile_assets [of env bucket basePath f s]
          Cons.IH [of "processFile env bucket basePath f s"]
    by simp
qed

lemma importLoop_rerun:
  assumes "dom (bucketCache a) = dom (bucketCache b)" and "report a = report b"
      and "bucketKeys (media_buckets (importLoop env bucket basePath files a))
             \<subseteq> bucketKeys (media_buckets b)"
  shows "length (media_buckets (importLoop env bucket basePath files b)) = length (media_buckets b) \<and>
         report (importLoop env bucket basePath files b) =
           report (importLoop env bucket basePath files a)"
  using assms
proof (induction files arbitrary: a b)
  case Nil
  then show ?case by simp
next
  case (Cons f fs)
  let ?a = "processFile env bucket basePath f a" and ?b = "processFile env bucket basePath f b"
  have w: "willUpsert env f a = willUpsert env f b" using Cons.prems(1) by (rule willUpsert_cong)
  have d: "dom (bucketCache ?a) = dom (bucketCache ?b)"
    using Cons.prems(1) w by (simp add: processFile_cache)
  have r: "report ?a = report ?b" using Cons.prems(1,2) by (rule processFile_report_cong)
  have sub: "bucketKeys (media_buckets ?a) \<subseteq> bucketKeys (media_buckets b)"
    using importLoop_keys_mono [of ?a env bucket basePath fs] Cons.prems(3) by simp
  have same: "length (media_buckets ?b) = length (media_buckets b) \<and>
              bucketKeys (media_buckets ?b) = bucketKeys (media_buckets b)"
  proof (cases "willUpsert env f b")
    case False
    then show ?thesis by (simp add: processFile_buckets)
  next
    case True
    then have "product_id (bucketValuesOf env basePath f) \<in> bucketKeys (media_buckets ?a)"
      using w by (simp add: processFile_buckets upsertBucket_keys)
    then have "product_id (bucketValuesOf env basePath f) \<in> bucketKeys (media_buckets b)"
      using sub by blast
    then show ?thesis
      using True by (auto simp add: processFile_buckets upsertBucket_keys upsertBucket_length)
  qed
  have "bucketKeys (media_buckets (importLoop env bucket basePath fs ?a))
          \<subseteq> bucketKeys (media_buckets ?b)"
    using Cons.prems(3) same by simp
  from Cons.IH [OF d r this] same show ?case by simp
qed

lemma upsertBucket_rows:
  "r \<in> set (snd (upsertBucket i v tbl)) \<Longrightarrow> r \<in> set tbl \<or> snd r = v"
  by (auto simp add: upsertBucket_def split: option.splits if_splits)

lemma processFile_ownersAgree:
  assumes "ownersAgree env (media_buckets s)"
  shows "ownersAgree env (media_buckets (processFile env bucket basePath file s))"
proof (cases "willUpsert env file s")
  case False
  then show ?thesis using assms by (simp add: processFile_buckets)
next
  case True
  then have v: "productIdFor env (sku_label (bucketValuesOf env basePath file)) =
                  Some (product_id (bucketValuesOf env basePath file))"
    by (auto simp add: willUpsert_def bucketValuesOf_def split: sum.splits option.splits)
  show ?thesis
    using True assms v upsertBucket_rows
    by (fastforce simp add: processFile_buckets ownersAgree_def list_all_iff)
qed

lemma importLoop_ownersAgree:
  "ownersAgree env (media_buckets s) \<Longrightarrow>
   ownersAgree env (media_buckets (importLoop env bucket basePath files s))"
  by (induction files arbitrary: s) (simp_all add: processFile_ownersAgree)

lemma distinct_labels:
  assumes "distinct (map (\<lambda>r. product_id (snd r)) tbl)" and "ownersAgree env tbl"
  shows "distinct (map (\<lambda>r. sku_label (snd r)) tbl)"
proof -
  have d: "distinct tbl" and inj: "inj_on (\<lambda>r. product_id (snd r)) (set tbl)"
    using assms(1) by (simp_all add: distinct_map)
  have "inj_on (\<lambda>r. sku_label (snd r)) (set tbl)"
  proof (rule inj_onI)
    fix x y
    assume x: "x \<in> set tbl" and y: "y \<in> set tbl"
      and eq: "sku_label (snd x) = sku_label (snd y)"
    have "productIdFor env (sku_label (snd x)) = Some (product_id (snd x))"
      and "productIdFor env (sku_label (snd y)) = Some (product_id (snd y))"
      using assms(2) x y by (simp_all add: ownersAgree_def list_all_iff)
    then have "product_id (snd x) = product_id (snd y)" using eq by simp
    then show "x = y" using inj x y by (simp add: inj_on_def)
  qed
  then show ?thesis using d by (simp add: distinct_map)
qed

lemma processFile_cacheSound:
  "cacheSound env s \<Longrightarrow> cacheSound env (processFile env bucket basePath file s)"
  by (auto simp add: cacheSound_def processFile_cache willUpsert_def split: sum.splits if_splits)

lemma step_succeeds:
  assumes "itemSucceeds env bucket basePath file" and "progress s = (u, a, k, f, es, ids)"
  shows "progress (processFile env bucket basePath file s) =
           (Suc u, Suc a, k, f, es, ids @ [fileId file])"
  using assms
  by (cases "bucketCache s (skuLabelOf file)")
     (auto simp add: itemSucceeds_def progress_def processFile_def fileBody_def resolveBucket_def
        Let_def bump_defs split: sum.splits option.splits prod.splits)

lemma step_ownerMissing:
  assumes "ownerMissing env file" and "cacheSound env s" and "progress s = (u, a, k, f, es, ids)"
  shows "progress (processFile env bucket basePath file s) = (u, a, Suc k, f, es, ids)"
proof -
  have "bucketCache s (skuLabelOf file) = None"
  proof (rule ccontr)
    assume "bucketCache s (skuLabelOf file) \<noteq> None"
    then have "skuLabelOf file \<in> dom (bucketCache s)" by (simp add: domIff)
    with assms(2) have "case productIdFor env (skuLabelOf file) of None \<Rightarrow> False | Some pid \<Rightarrow> pid \<noteq> []"
      unfolding cacheSound_def by (rule bspec)
    then show False using assms(1)
      by (auto simp add: ownerMissing_def split: option.splits)
  qed
  then show ?thesis
    using assms(1,3)
    by (auto simp add: ownerMissing_def progress_def processFile_def fileBody_def resolveBucket_def
        Let_def bump_defs split: sum.splits option.splits prod.splits)
qed

lemma step_persistenceThrows:
  assumes "persistenceThrows env bucket basePath file msg"
      and "progress s = (u, a, k, f, es, ids)"
  shows "progress (processFile env bucket basePath file s) =
           (Suc u, a, k, Suc f,
            es @ [ItemError (path file) (''Asset insert failed for '' @ path file @ '': '' @ msg)],
            ids)"
  using assms
  by (cases "bucketCache s (skuLabelOf file)")
     (auto simp add: persistenceThrows_def progress_def processFile_def fileBody_def
        resolveBucket_def Let_def bump_defs split: sum.splits option.splits prod.splits)

lemma sku_items:
  "skuLabelOf item1 = ''TEE-01''" "skuLabelOf item2 = ''TEE-01''" "skuLabelOf item3 = ''CAP-09''"
  "skuLabelOf item4 = ''MUG-02''" "skuLabelOf item5 = ''MUG-02''"
  by (simp_all add: skuLabelOf_def item1_def item2_def item3_def item4_def item5_def)

lemma shop_first_run:
  "length (media_buckets (importRun shopEnv ''media'' [] [item1, item2, item5] emptyStores)) = 2 \<and>
   length (media_assets (importRun shopEnv ''media'' [] [item1, item2, item5] emptyStores)) = 3 \<and>
   assetsCreated (report (importRun shopEnv ''media'' [] [item1, item2, item5] emptyStores)) = 3"
  by code_simp


section \<open>The claims about the client\<close>

text \<open>
  C10. With \<open>options.retries\<close> zero or negative the loop body never runs: \<open>query\<close>
  sends no request (the fetch count and the requests of the trace are as before; only the
  rate-limit wait before the loop may have happened) and throws an error with the message
  \<open>Unknown error\<close>, whatever the query text, the variables and the estimated cost.
\<close>

theorem query_nonpositive_retries:
  assumes "n \<le> 0"
  shows "query e q vars (Some \<lparr>estimatedCost = co, retries = Some n\<rparr>) c =
           (Inl (Error ''Unknown error''),
            waitForRateLimit e (case co of None \<Rightarrow> 100 | Some x \<Rightarrow> x) c) \<and>
         fetchCount (snd (query e q vars (Some \<lparr>estimatedCost = co, retries = Some n\<rparr>) c)) =
           fetchCount c \<and>
         requestsOf (trace (snd (query e q vars (Some \<lparr>estimatedCost = co, retries = Some n\<rparr>) c))) =
           requestsOf (trace c)"
proof -
  have "\<not> int 0 < n" using assms by simp
  then have "query e q vars (Some \<lparr>estimatedCost = co, retries = Some n\<rparr>) c =
           (Inl (Error ''Unknown error''),
            waitForRateLimit e (case co of None \<Rightarrow> 100 | Some x \<Rightarrow> x) c)"
    by (simp add: query_def queryLoop_done)
  then show ?thesis by simp
qed

theorem query_nonpositive_retries_witness:
  "(0::int) \<le> 0 \<and>
   query alwaysThrottledEnv ''q'' None (Some \<lparr>estimatedCost = None, retries = Some 0\<rparr>)
       (newClient alwaysThrottledEnv) =
     (Inl (Error ''Unknown error''), (newClient alwaysThrottledEnv)\<lparr>clockReads := 2\<rparr>)"
  using query_nonpositive_retries [of 0 alwaysThrottledEnv "''q''" None None "newClient alwaysThrottledEnv"]
  by (simp add: waitForRateLimit_def waitForRateLimit_at_def readClock_def newClient_def
      alwaysThrottledEnv_def)

text \<open>
  C1, as the code has it. A throttled response makes the client wait a fixed 2000 ms,
  without exponential backoff, and go on to the next attempt; that attempt is counted like
  any other. No call of \<open>query\<close> sends more than \<open>retries\<close> requests, and when every
  response is throttled it sends exactly \<open>retries\<close> of them, each followed by the
  2000 ms wait, and then raises.
\<close>

theorem query_throttled_attempts_counted:
  "fetchCount (snd (query e q vars (Some \<lparr>estimatedCost = co, retries = Some n\<rparr>) c))
     \<le> fetchCount c + nat n \<and>
   ((\<forall>k. classify (fetch e k \<lparr>queryText = q, variables = vars\<rparr>) = Continue) \<longrightarrow>
      isl (fst (query e q vars (Some \<lparr>estimatedCost = co, retries = Some n\<rparr>) c)) \<and>
      fetchCount (snd (query e q vars (Some \<lparr>estimatedCost = co, retries = Some n\<rparr>) c)) =
        fetchCount c + nat n \<and>
      trace (snd (query e q vars (Some \<lparr>estimatedCost = co, retries = Some n\<rparr>) c)) =
        trace (waitForRateLimit e (case co of None \<Rightarrow> 100 | Some x \<Rightarrow> x) c) @
        concat (replicate (nat n) [Request \<lparr>queryText = q, variables = vars\<rparr>, ThrottleWait 2000]))"
proof -
  let ?req = "\<lparr>queryText = q, variables = vars\<rparr>"
  let ?c1 = "waitForRateLimit e (case co of None \<Rightarrow> 100 | Some x \<Rightarrow> x) c"
  have q: "query e q vars (Some \<lparr>estimatedCost = co, retries = Some n\<rparr>) c =
             queryLoop e ?req n 0 None ?c1"
    by (simp add: query_def)
  have bound: "fetchCount (snd (queryLoop e ?req n 0 None ?c1)) \<le> fetchCount c + nat n"
    using queryLoop_fetch_bound [of e ?req n 0 None ?c1] by simp
  have thr: "isl (fst (queryLoop e ?req n 0 None ?c1)) \<and>
      fetchCount (snd (queryLoop e ?req n 0 None ?c1)) = fetchCount c + nat n \<and>
      trace (snd (queryLoop e ?req n 0 None ?c1)) =
        trace ?c1 @ concat (replicate (nat n) [Request ?req, ThrottleWait 2000])"
    if "\<forall>k. classify (fetch e k ?req) = Continue"
    using queryLoop_always_throttled [of e ?req n 0 None ?c1] that by simp
  show ?thesis unfolding q using bound thr by blast
qed

theorem query_throttled_attempts_counted_witness:
  "(\<forall>k. classify (fetch alwaysThrottledEnv k \<lparr>queryText = ''q'', variables = None\<rparr>) = Continue) \<and>
   isl (fst (query alwaysThrottledEnv ''q'' None (Some \<lparr>estimatedCost = None, retries = Some 5\<rparr>)
              (newClient alwaysThrottledEnv))) \<and>
   fetchCount (snd (query alwaysThrottledEnv ''q'' None (Some \<lparr>estimatedCost = None, retries = Some 5\<rparr>)
                     (newClient alwaysThrottledEnv))) = 5"
proof -
  have h: "\<forall>k. classify (fetch alwaysThrottledEnv k \<lparr>queryText = ''q'', variables = None\<rparr>) = Continue"
    by (simp add: alwaysThrottledEnv_def throttledResponse_def classify_def isThrottled_def)
  show ?thesis
    using h query_throttled_attempts_counted
              [of alwaysThrottledEnv "''q''" None None 5 "newClient alwaysThrottledEnv"]
    by (simp add: newClient_def)
qed

text \<open>
  C1 as the spec states it fails: with the default three attempts and a server that
  always throttles, the call sends three requests, waits 2000 ms after each, and then
  throws.
\<close>

theorem query_always_throttled_gives_up:
  "fst (query alwaysThrottledEnv ''q'' None None (newClient alwaysThrottledEnv)) =
     Inl (Error ''Unknown error'') \<and>
   fetchCount (snd (query alwaysThrottledEnv ''q'' None None (newClient alwaysThrottledEnv))) = 3 \<and>
   trace (snd (query alwaysThrottledEnv ''q'' None None (newClient alwaysThrottledEnv))) =
     [Request \<lparr>queryText = ''q'', variables = None\<rparr>, ThrottleWait 2000,
      Request \<lparr>queryText = ''q'', variables = None\<rparr>, ThrottleWait 2000,
      Request \<lparr>queryText = ''q'', variables = None\<rparr>, ThrottleWait 2000]"
  by (simp add: query_def alwaysThrottledEnv_def newClient_def throttledResponse_def
      waitForRateLimit_def waitForRateLimit_at_def readClock_def queryLoop.simps attemptBody_def
      updateRateLimit_def emit_def isThrottled_def)

text \<open>
  C2, as the code has it. A response whose error list is not empty and has no throttling
  error makes the attempt throw \<open>GraphQL Error: \<close> followed by the messages joined
  with a comma and a space. The throw happens inside the \<open>try\<close> block, so the
  \<open>catch\<close> block records it as the last error and the loop treats it like any other
  failure: unless this was the last attempt the client waits \<open>2 ^ attempt * 1000\<close> ms
  and sends the request again; on the last attempt the error is raised to the caller, with
  no further wait and no further request. \<open>queryLoop\<close> is the loop of \<open>query\<close>
  from attempt \<open>a\<close> on.
\<close>

theorem queryLoop_graphql_error:
  assumes "fetch e (fetchCount c) req = Json json"
      and "errors json = Some ers" and "ers \<noteq> []" and "\<not> list_ex isThrottled ers"
      and "int a < n"
  shows "queryLoop e req n a le c =
     (let err = Error (''GraphQL Error: '' @ join '', '' (map message ers));
          c' = updateRateLimit e (extensions json) (emit (Request req) (c\<lparr>fetchCount := Suc (fetchCount c)\<rparr>))
      in if int a < n - 1
         then queryLoop e req n (Suc a) (Some err) (emit (Backoff (2 ^ a * 1000)) c')
         else (Inl err, c'))"
proof -
  let ?err = "Error (''GraphQL Error: '' @ join '', '' (map message ers))"
  let ?c' = "updateRateLimit e (extensions json) (emit (Request req) (c\<lparr>fetchCount := Suc (fetchCount c)\<rparr>))"
  obtain er ers' where ers: "ers = er # ers'" using assms(3) by (cases ers) auto
  have cl: "classify (fetch e (fetchCount c) req) = Throw ?err"
    using assms(1,2,4) by (simp add: classify_def ers)
  have st: "snd (attemptBody e req c) = ?c'"
    using assms(1,2,4) by (simp add: attemptBody_def Let_def ers)
  have step: "queryLoop e req n a le c =
           queryLoop e req n (Suc a) (Some ?err)
             (if int a < n - 1 then emit (Backoff (2 ^ a * 1000)) ?c' else ?c')"
    using queryLoop_Throw [OF assms(5) cl, of le] by (simp only: st)
  show ?thesis
  proof (cases "int a < n - 1")
    case True
    then show ?thesis using step by (simp add: Let_def)
  next
    case False
    then have "\<not> int (Suc a) < n" by simp
    then show ?thesis using step False by (simp add: Let_def queryLoop_done)
  qed
qed

theorem queryLoop_graphql_error_witness:
  "fetch twoErrorsEnv 0 \<lparr>queryText = ''q'', variables = None\<rparr> =
      Json \<lparr>data = None,
            errors = Some [\<lparr>message = ''Field x not found'', code = None\<rparr>,
                           \<lparr>message = ''Access denied'', code = Some ''ACCESS_DENIED''\<rparr>],
            extensions = None\<rparr> \<and>
   fst (queryLoop twoErrorsEnv \<lparr>queryText = ''q'', variables = None\<rparr> 1 0 None (newClient twoErrorsEnv)) =
     Inl (Error ''GraphQL Error: Field x not found, Access denied'') \<and>
   fetchCount (snd (queryLoop twoErrorsEnv \<lparr>queryText = ''q'', variables = None\<rparr> 1 0 None (newClient twoErrorsEnv))) = 1"
proof -
  let ?ers = "[\<lparr>message = ''Field x not found'', code = None\<rparr>,
               \<lparr>message = ''Access denied'', code = Some ''ACCESS_DENIED''\<rparr>]"
  let ?json = "\<lparr>data = None :: nat option, errors = Some ?ers, extensions = None\<rparr>"
  have h1: "fetch twoErrorsEnv (fetchCount (newClient twoErrorsEnv)) \<lparr>queryText = ''q'', variables = None\<rparr> = Json ?json"
    by (simp add: twoErrorsEnv_def)
  have h2: "errors ?json = Some ?ers" by simp
  have h3: "?ers \<noteq> []" by simp
  have h4: "\<not> list_ex isThrottled ?ers" by (simp add: isThrottled_def)
  have h5: "int 0 < 1" by simp
  show ?thesis
    using queryLoop_graphql_error [OF h1 h2 h3 h4 h5, of None]
    by (simp add: twoErrorsEnv_def Let_def updateRateLimit_def emit_def newClient_def)
qed

text \<open>
  C2 as the spec states it fails: the first response carries a non-throttling error, yet
  the call does not raise; it waits 1000 ms, sends the request again and returns the data
  of the second response.
\<close>

theorem query_retries_graphql_error:
  "fst (query errorThenDataEnv ''q'' None None (newClient errorThenDataEnv)) = Inr 7 \<and>
   trace (snd (query errorThenDataEnv ''q'' None None (newClient errorThenDataEnv))) =
     [Request \<lparr>queryText = ''q'', variables = None\<rparr>, Backoff 1000,
      Request \<lparr>queryText = ''q'', variables = None\<rparr>]"
  by (simp add: query_def errorThenDataEnv_def newClient_def
      waitForRateLimit_def waitForRateLimit_at_def readClock_def queryLoop.simps attemptBody_def
      updateRateLimit_def emit_def isThrottled_def)

text \<open>
  C6. When the first two attempts of a call with \<open>retries = 3\<close> throw and the third
  response carries data, \<open>query\<close> returns that data, and after the rate-limit wait its
  trace is: request, backoff of 1000 ms, request, backoff of 2000 ms, request. In general,
  when all \<open>m\<close> attempts of a call with \<open>retries = m\<close> throw, the backoff after
  attempt \<open>i\<close> is \<open>2 ^ i * 1000\<close> ms, there is none after the last attempt, and the
  error of the last attempt is raised.
\<close>

theorem query_backoff_schedule:
  "((\<exists>err0. classify (fetch e (fetchCount c) \<lparr>queryText = q, variables = vars\<rparr>) = Throw err0) \<and>
    (\<exists>err1. classify (fetch e (fetchCount c + 1) \<lparr>queryText = q, variables = vars\<rparr>) = Throw err1) \<and>
    classify (fetch e (fetchCount c + 2) \<lparr>queryText = q, variables = vars\<rparr>) = Return d \<longrightarrow>
      fst (query e q vars (Some \<lparr>estimatedCost = co, retries = Some 3\<rparr>) c) = Inr d \<and>
      trace (snd (query e q vars (Some \<lparr>estimatedCost = co, retries = Some 3\<rparr>) c)) =
        trace (waitForRateLimit e (case co of None \<Rightarrow> 100 | Some x \<Rightarrow> x) c) @
        [Request \<lparr>queryText = q, variables = vars\<rparr>, Backoff 1000,
         Request \<lparr>queryText = q, variables = vars\<rparr>, Backoff 2000,
         Request \<lparr>queryText = q, variables = vars\<rparr>]) \<and>
   (0 < m \<and> (\<forall>i<m. classify (fetch e (fetchCount c + i) \<lparr>queryText = q, variables = vars\<rparr>) = Throw (errs i)) \<longrightarrow>
      fst (query e q vars (Some \<lparr>estimatedCost = co, retries = Some (int m)\<rparr>) c) = Inl (errs (m - 1)) \<and>
      trace (snd (query e q vars (Some \<lparr>estimatedCost = co, retries = Some (int m)\<rparr>) c)) =
        trace (waitForRateLimit e (case co of None \<Rightarrow> 100 | Some x \<Rightarrow> x) c) @
        concat (map (\<lambda>i. [Request \<lparr>queryText = q, variables = vars\<rparr>, Backoff (2 ^ i * 1000)]) [0..<m - 1]) @
        [Request \<lparr>queryText = q, variables = vars\<rparr>])"
proof (intro conjI impI)
  let ?req = "\<lparr>queryText = q, variables = vars\<rparr>"
  let ?c1 = "waitForRateLimit e (case co of None \<Rightarrow> 100 | Some x \<Rightarrow> x) c"
  assume h: "(\<exists>err0. classify (fetch e (fetchCount c) ?req) = Throw err0) \<and>
    (\<exists>err1. classify (fetch e (fetchCount c + 1) ?req) = Throw err1) \<and>
    classify (fetch e (fetchCount c + 2) ?req) = Return d"
  then obtain err0 err1 where
    e0: "classify (fetch e (fetchCount c) ?req) = Throw err0" and
    e1: "classify (fetch e (fetchCount c + 1) ?req) = Throw err1" and
    ok: "classify (fetch e (fetchCount c + 2) ?req) = Return d"
    by blast
  have fails: "\<And>i. i < 2 \<Longrightarrow>
      classify (fetch e (fetchCount ?c1 + i) ?req) = Throw ((\<lambda>i. if i = 0 then err0 else err1) i)"
    using e0 e1 by (auto simp add: less_Suc_eq numeral_2_eq_2)
  obtain c' where
    eq: "queryLoop e ?req 3 0 None ?c1 = queryLoop e ?req 3 (0 + 2) (Some err1) c'" and
    fc: "fetchCount c' = fetchCount ?c1 + 2" and
    tr: "trace c' = trace ?c1 @
           concat (map (\<lambda>i. Request ?req #
                         (if int (0 + i) < 3 - 1 then [Backoff (2 ^ (0 + i) * 1000)] else []))
                     [0..<2])"
    using queryLoop_failures [of 2 e ?c1 ?req "\<lambda>i. if i = 0 then err0 else err1" 0 3 None, OF fails]
    by auto
  have ret: "queryLoop e ?req 3 2 (Some err1) c' = (Inr d, snd (attemptBody e ?req c'))"
    using ok by (intro queryLoop_Return) (simp_all add: fc)
  have q: "query e q vars (Some \<lparr>estimatedCost = co, retries = Some 3\<rparr>) c =
             (Inr d, snd (attemptBody e ?req c'))"
    using eq ret by (simp add: query_def numeral_2_eq_2)
  have up: "[0..<2] = [0, 1]" by (simp add: upt_rec)
  show "fst (query e q vars (Some \<lparr>estimatedCost = co, retries = Some 3\<rparr>) c) = Inr d"
    by (simp add: q)
  show "trace (snd (query e q vars (Some \<lparr>estimatedCost = co, retries = Some 3\<rparr>) c)) =
        trace ?c1 @ [Request ?req, Backoff 1000, Request ?req, Backoff 2000, Request ?req]"
    using ok by (simp add: q attemptBody_trace tr fc up)
next
  let ?req = "\<lparr>queryText = q, variables = vars\<rparr>"
  let ?c1 = "waitForRateLimit e (case co of None \<Rightarrow> 100 | Some x \<Rightarrow> x) c"
  assume h: "0 < m \<and> (\<forall>i<m. classify (fetch e (fetchCount c + i) ?req) = Throw (errs i))"
  then have m: "0 < m" and fails: "\<And>i. i < m \<Longrightarrow>
      classify (fetch e (fetchCount ?c1 + i) ?req) = Throw (errs i)"
    by simp_all
  obtain c' where
    eq: "queryLoop e ?req (int m) 0 None ?c1 = queryLoop e ?req (int m) (0 + m) (Some (errs (m - 1))) c'" and
    tr: "trace c' = trace ?c1 @
           concat (map (\<lambda>i. Request ?req #
                         (if int (0 + i) < int m - 1 then [Backoff (2 ^ (0 + i) * 1000)] else []))
                     [0..<m])"
    using queryLoop_failures [of m e ?c1 ?req errs 0 "int m" None, OF fails] m
    by auto
  have q: "query e q vars (Some \<lparr>estimatedCost = co, retries = Some (int m)\<rparr>) c =
             (Inl (errs (m - 1)), c')"
    using eq by (simp add: query_def queryLoop_done)
  let ?f = "\<lambda>i. Request ?req #
                 (if int (0 + i) < int m - 1 then [Backoff (2 ^ (0 + i) * 1000)] else [])"
  let ?g = "\<lambda>i. [Request ?req, Backoff (2 ^ i * 1000)]"
  have split: "[0..<m] = [0..<m - 1] @ [m - 1]"
    using m by (metis Suc_pred' upt_Suc_append zero_le)
  have pre: "map ?f [0..<m - 1] = map ?g [0..<m - 1]"
    by (rule map_cong) auto
  have lst: "?f (m - 1) = [Request ?req]"
    using m by auto
  have "concat (map ?f [0..<m]) = concat (map ?f [0..<m - 1]) @ ?f (m - 1)"
    by (subst split) (simp del: upt_Suc)
  then have cc: "concat (map ?f [0..<m]) = concat (map ?g [0..<m - 1]) @ [Request ?req]"
    by (simp only: pre lst)
  show "fst (query e q vars (Some \<lparr>estimatedCost = co, retries = Some (int m)\<rparr>) c) = Inl (errs (m - 1))"
    by (simp add: q)
  show "trace (snd (query e q vars (Some \<lparr>estimatedCost = co, retries = Some (int m)\<rparr>) c)) =
        trace ?c1 @
        concat (map (\<lambda>i. [Request ?req, Backoff (2 ^ i * 1000)]) [0..<m - 1]) @ [Request ?req]"
    unfolding q snd_conv tr cc ..
qed

theorem query_backoff_schedule_witness:
  "(\<exists>err0. classify (fetch failTwiceEnv 0 \<lparr>queryText = ''q'', variables = None\<rparr>) = Throw err0) \<and>
   (\<exists>err1. classify (fetch failTwiceEnv 1 \<lparr>queryText = ''q'', variables = None\<rparr>) = Throw err1) \<and>
   classify (fetch failTwiceEnv 2 \<lparr>queryText = ''q'', variables = None\<rparr>) = Return 42 \<and>
   fst (query failTwiceEnv ''q'' None (Some \<lparr>estimatedCost = None, retries = Some 3\<rparr>)
          (newClient failTwiceEnv)) = Inr 42 \<and>
   trace (snd (query failTwiceEnv ''q'' None (Some \<lparr>estimatedCost = None, retries = Some 3\<rparr>)
                 (newClient failTwiceEnv))) =
     [Request \<lparr>queryText = ''q'', variables = None\<rparr>, Backoff 1000,
      Request \<lparr>queryText = ''q'', variables = None\<rparr>, Backoff 2000,
      Request \<lparr>queryText = ''q'', variables = None\<rparr>] \<and>
   fst (query failTwiceEnv ''q'' None (Some \<lparr>estimatedCost = None, retries = Some 2\<rparr>)
          (newClient failTwiceEnv)) = Inl (Error ''HTTP 503: Service Unavailable'')"
proof -
  have fc: "fetchCount (newClient failTwiceEnv) = 0" by (simp add: newClient_def)
  have w: "trace (waitForRateLimit failTwiceEnv 100 (newClient failTwiceEnv)) = []"
    by (simp add: waitForRateLimit_def waitForRateLimit_at_def readClock_def newClient_def
        failTwiceEnv_def)
  show ?thesis
    using query_backoff_schedule [of failTwiceEnv "newClient failTwiceEnv" "''q''" None 42 None 2
                     "\<lambda>i. Error ''HTTP 503: Service Unavailable''"]
    by (simp add: fc w classify_failTwice)
qed

text \<open>
  C5, as the code has it. The client keeps no \<open>maxPoints\<close>: the estimate is
  \<open>min 1000 (available + elapsedSeconds * restoreRate)\<close> with the literal 1000 of
  line 79, where \<open>available\<close>, \<open>restoreRate\<close> and \<open>lastUpdate\<close> are the
  fields of the state. \<open>waitForRateLimit\<close> reads the clock, waits exactly when the
  cost exceeds that estimate, for the delay computed from it, and stores nothing. A
  response without throttle status leaves the client as it is; one with a throttle status
  overwrites \<open>available\<close> and \<open>restoreRate\<close> with the reported values and
  \<open>lastUpdate\<close> with the clock, and its \<open>maximumAvailable\<close> is never read: at the
  moment of the observation the method waits exactly when the cost exceeds
  \<open>min 1000 currentlyAvailable\<close>. After any call of \<open>query\<close> the state is the one
  before the call or such an observation of a response.
\<close>

theorem rate_estimate_capped_at_1000:
  "waitForRateLimit_at st now cost =
     (if min 1000 (available st + ((now - lastUpdate st) / 1000) * restoreRate st) < cost
      then (if restoreRate st = 0 then Some Infinity
            else Some (Ms (((cost - min 1000 (available st + ((now - lastUpdate st) / 1000) * restoreRate st))
                              / restoreRate st) * 1000 + 100)))
      else None) \<and>
   waitForRateLimit e cost c =
     (case waitForRateLimit_at (rateLimitState c) (dateNow e (clockReads c)) cost of
        None \<Rightarrow> c\<lparr>clockReads := Suc (clockReads c)\<rparr>
      | Some d \<Rightarrow> c\<lparr>clockReads := Suc (clockReads c), trace := trace c @ [RateLimitWait d]\<rparr>) \<and>
   updateRateLimit e None c = c \<and>
   updateRateLimit e (Some ts) c =
     c\<lparr>clockReads := Suc (clockReads c),
       rateLimitState :=
         \<lparr>available = currentlyAvailable ts, restoreRate = reportedRestoreRate ts,
          lastUpdate = dateNow e (clockReads c)\<rparr>\<rparr> \<and>
   (waitForRateLimit_at (rateLimitState (updateRateLimit e (Some ts) c)) (dateNow e (clockReads c)) cost = None) =
     (cost \<le> min 1000 (currentlyAvailable ts)) \<and>
   (rateLimitState (snd (query e q vars options c)) = rateLimitState c \<or>
    (\<exists>k req json ts t. fetch e k req = Json json \<and> extensions json = Some ts \<and>
       rateLimitState (snd (query e q vars options c)) =
         \<lparr>available = currentlyAvailable ts, restoreRate = reportedRestoreRate ts,
          lastUpdate = dateNow e t\<rparr>))"
proof (intro conjI)
  show "waitForRateLimit_at st now cost =
     (if min 1000 (available st + ((now - lastUpdate st) / 1000) * restoreRate st) < cost
      then (if restoreRate st = 0 then Some Infinity
            else Some (Ms (((cost - min 1000 (available st + ((now - lastUpdate st) / 1000) * restoreRate st))
                              / restoreRate st) * 1000 + 100)))
      else None)"
    by (simp only: waitForRateLimit_at_def Let_def)
  show "waitForRateLimit e cost c =
     (case waitForRateLimit_at (rateLimitState c) (dateNow e (clockReads c)) cost of
        None \<Rightarrow> c\<lparr>clockReads := Suc (clockReads c)\<rparr>
      | Some d \<Rightarrow> c\<lparr>clockReads := Suc (clockReads c), trace := trace c @ [RateLimitWait d]\<rparr>)"
    by (simp add: waitForRateLimit_def readClock_def emit_def split: option.splits)
  show "updateRateLimit e None c = c"
    by (simp add: updateRateLimit_def)
  have up: "updateRateLimit e (Some ts) c =
     c\<lparr>clockReads := Suc (clockReads c),
       rateLimitState :=
         \<lparr>available = currentlyAvailable ts, restoreRate = reportedRestoreRate ts,
          lastUpdate = dateNow e (clockReads c)\<rparr>\<rparr>"
    by (simp add: updateRateLimit_def readClock_def)
  then show "updateRateLimit e (Some ts) c =
     c\<lparr>clockReads := Suc (clockReads c),
       rateLimitState :=
         \<lparr>available = currentlyAvailable ts, restoreRate = reportedRestoreRate ts,
          lastUpdate = dateNow e (clockReads c)\<rparr>\<rparr>" .
  show "(waitForRateLimit_at (rateLimitState (updateRateLimit e (Some ts) c)) (dateNow e (clockReads c)) cost = None) =
     (cost \<le> min 1000 (currentlyAvailable ts))"
    by (auto simp add: up waitForRateLimit_at_def Let_def)
  let ?P = "\<lambda>c'. rateLimitState c' = rateLimitState c \<or>
    (\<exists>k req json ts t. fetch e k req = Json json \<and> extensions json = Some ts \<and>
       rateLimitState c' =
         \<lparr>available = currentlyAvailable ts, restoreRate = reportedRestoreRate ts,
          lastUpdate = dateNow e t\<rparr>)"
  have step: "?P (snd (attemptBody e req c'))" if "?P c'" for req c'
    using attemptBody_rateLimitState [of e req c'] that by metis
  have em: "?P (emit ev c')" if "?P c'" for ev c'
    using that by simp
  have "?P (snd (queryLoop e req n 0 None (waitForRateLimit e cost' c)))" for req n cost'
    by (rule queryLoop_invariant [where P = ?P]) (simp, erule step, erule em)
  then show "?P (snd (query e q vars options c))"
    by (simp add: query_def Let_def)
qed

text \<open>
  C5 as the spec states it fails: the server reports 1500 points available out of a
  maximum of 2000, and the client stores the 1500. Against the budget's maximum the
  estimate covers a cost of 1200, yet the next call with that cost waits 2100 ms, because
  the estimate is taken against 1000.
\<close>

theorem reported_maximum_ignored:
  "rateLimitState (snd (query largeBucketEnv ''q'' None None (newClient largeBucketEnv))) =
     \<lparr>available = 1500, restoreRate = 100, lastUpdate = 0\<rparr> \<and>
   (1200::real) \<le> min 2000 (1500 + ((0 - 0) / 1000) * 100) \<and>
   waitForRateLimit_at
     (rateLimitState (snd (query largeBucketEnv ''q'' None None (newClient largeBucketEnv)))) 0 1200 =
     Some (Ms 2100) \<and>
   trace (snd (query largeBucketEnv ''q'' None (Some \<lparr>estimatedCost = Some 1200, retries = None\<rparr>)
                 (snd (query largeBucketEnv ''q'' None None (newClient largeBucketEnv))))) =
     [Request \<lparr>queryText = ''q'', variables = None\<rparr>, RateLimitWait (Ms 2100),
      Request \<lparr>queryText = ''q'', variables = None\<rparr>]"
  unfolding largeBucket_first_query
  by (simp add: query_def largeBucketEnv_def
      waitForRateLimit_def waitForRateLimit_at_def readClock_def queryLoop.simps attemptBody_def
      updateRateLimit_def emit_def)

text \<open>
  C8, as the code has it. With a positive restore rate and a cost above the estimate, the
  delay is positive; a later call with the same state and cost does not wait or waits a
  positive delay that is not longer; it is strictly shorter when the estimate of the earlier
  call was below the cap of 1000 points.
\<close>

theorem wait_decreases_with_elapsed_time:
  assumes "0 < restoreRate st" and "t1 < t2"
      and "min 1000 (available st + ((t1 - lastUpdate st) / 1000) * restoreRate st) < cost"
  shows "\<exists>d1. waitForRateLimit_at st t1 cost = Some (Ms d1) \<and> 0 < d1 \<and>
           (waitForRateLimit_at st t2 cost = None \<or>
            (\<exists>d2. waitForRateLimit_at st t2 cost = Some (Ms d2) \<and> 0 < d2 \<and> d2 \<le> d1 \<and>
                  (available st + ((t1 - lastUpdate st) / 1000) * restoreRate st < 1000 \<longrightarrow> d2 < d1)))"
proof -
  let ?r = "restoreRate st"
  let ?u1 = "available st + ((t1 - lastUpdate st) / 1000) * ?r"
  let ?u2 = "available st + ((t2 - lastUpdate st) / 1000) * ?r"
  let ?e1 = "min 1000 ?u1" and ?e2 = "min 1000 ?u2"
  let ?d1 = "((cost - ?e1) / ?r) * 1000 + 100"
  let ?d2 = "((cost - ?e2) / ?r) * 1000 + 100"
  have r: "0 < ?r" by (rule assms(1))
  have "(t1 - lastUpdate st) / 1000 < (t2 - lastUpdate st) / 1000" using assms(2) by simp
  then have u: "?u1 < ?u2" using r by simp
  then have le: "?e1 \<le> ?e2" by simp
  have w1: "waitForRateLimit_at st t1 cost = Some (Ms ?d1)"
    using assms(3) r by (simp add: waitForRateLimit_at_def Let_def)
  have p1: "0 < ?d1"
  proof -
    have "0 < (cost - ?e1) / ?r" using assms(3) r by simp
    then show ?thesis by (rule wait_pos)
  qed
  show ?thesis
  proof (cases "?e2 < cost")
    case False
    then have "waitForRateLimit_at st t2 cost = None"
      by (simp add: waitForRateLimit_at_def Let_def)
    then show ?thesis using w1 p1 by blast
  next
    case True
    then have w2: "waitForRateLimit_at st t2 cost = Some (Ms ?d2)"
      using r by (simp add: waitForRateLimit_at_def Let_def)
    have p2: "0 < ?d2"
    proof -
      have "0 < (cost - ?e2) / ?r" using True r by simp
      then show ?thesis by (rule wait_pos)
    qed
    have "(cost - ?e2) / ?r \<le> (cost - ?e1) / ?r"
      using le r by (simp add: divide_le_cancel)
    then have d: "?d2 \<le> ?d1" by (rule wait_mono)
    have s: "?d2 < ?d1" if "?u1 < 1000"
    proof -
      have "?e1 < ?e2" using that u by simp
      then have "(cost - ?e2) / ?r < (cost - ?e1) / ?r"
        using r by (simp add: divide_strict_right_mono)
      then show ?thesis by (rule wait_strict_mono)
    qed
    show ?thesis using w1 w2 p1 p2 d s by blast
  qed
qed

theorem wait_decreases_with_elapsed_time_witness:
  "(0::real) < 50 \<and> (0::real) < 1000 \<and>
   waitForRateLimit_at \<lparr>available = 0, restoreRate = 50, lastUpdate = 0\<rparr> 0 100 = Some (Ms 2100) \<and>
   waitForRateLimit_at \<lparr>available = 0, restoreRate = 50, lastUpdate = 0\<rparr> 1000 100 = Some (Ms 1100)"
  using wait_decreases_with_elapsed_time [of "\<lparr>available = 0, restoreRate = 50, lastUpdate = 0\<rparr>" 0 1000 100]
  by (simp add: waitForRateLimit_at_def)

text \<open>
  C8 as the spec states it fails: for a cost of 1500 points the estimate stays at the cap
  of 1000, and the delay computed one second later is the same 10100 ms.
\<close>

theorem wait_constant_above_cap:
  "waitForRateLimit_at \<lparr>available = 1000, restoreRate = 50, lastUpdate = 0\<rparr> 0 1500 = Some (Ms 10100) \<and>
   waitForRateLimit_at \<lparr>available = 1000, restoreRate = 50, lastUpdate = 0\<rparr> 1000 1500 = Some (Ms 10100)"
  by (simp add: waitForRateLimit_at_def)


section \<open>The claim about pagination\<close>

text \<open>
  C7. Let \<open>page cursor\<close> be the data the server returns for a request whose
  \<open>after\<close> variable is \<open>cursor\<close>, and let the walk that starts at null and follows
  each page's \<open>endCursor\<close> meet its first page with \<open>hasNextPage = false\<close> at the
  \<open>n\<close>-th page. Then \<open>paginate\<close>, given at least \<open>n\<close> units of fuel, ends
  normally after exactly \<open>n\<close> requests; the \<open>after\<close> variables of these requests are
  null and then the \<open>endCursor\<close> of each page as it was returned, \<open>first\<close> is the
  page size, and the node lists are yielded in order (a page with no nodes yields nothing).
  With less fuel the loop is still running: it does not stop before the page that reports
  \<open>hasNextPage = false\<close>. The witness is the source with pages of 50, 50 and 20 nodes.
\<close>

theorem paginate_follows_cursors:
  assumes "\<And>k cu. classify (fetch e k \<lparr>queryText = q,
               variables = Some (pageVariables vars (case options of Some (Some n) \<Rightarrow> n | _ \<Rightarrow> 50) cu)\<rparr>)
             = Return (page cu)"
      and "map (\<lambda>cu. hasNextPage (getPageInfo (page cu)))
             (cursorChain (\<lambda>cu. getPageInfo (page cu)) n None) = replicate (n - 1) True @ [False]"
  shows "(n \<le> fuel \<longrightarrow>
           (\<exists>c'. paginate fuel e q vars getPageInfo getNodes options c =
                   Some (filter (\<lambda>ns. ns \<noteq> [])
                           (map (\<lambda>cu. getNodes (page cu))
                              (cursorChain (\<lambda>cu. getPageInfo (page cu)) n None)),
                         None, c') \<and>
                 fetchCount c' = fetchCount c + n \<and>
                 requestsOf (trace c') = requestsOf (trace c) @
                   map (\<lambda>cu. \<lparr>queryText = q,
                               variables = Some (pageVariables vars
                                 (case options of Some (Some n) \<Rightarrow> n | _ \<Rightarrow> 50) cu)\<rparr>)
                       (cursorChain (\<lambda>cu. getPageInfo (page cu)) n None))) \<and>
         (fuel < n \<longrightarrow> paginate fuel e q vars getPageInfo getNodes options c = None)"
  using paginateLoop_walk [of e q vars "case options of Some (Some n) \<Rightarrow> n | _ \<Rightarrow> 50" page
          getPageInfo n None fuel getNodes "[]" c, OF assms]
  by (simp add: paginate_def)

theorem paginate_follows_cursors_witness:
  "(\<forall>k cu. classify (fetch threePageEnv k \<lparr>queryText = ''q'',
               variables = Some (pageVariables Map.empty 50 cu)\<rparr>) = Return (threePages cu)) \<and>
   map (\<lambda>cu. hasNextPage (pageInfoOf (threePages cu)))
      (cursorChain (\<lambda>cu. pageInfoOf (threePages cu)) 3 None) = [True, True, False] \<and>
   (\<exists>c'. paginate 7 threePageEnv ''q'' Map.empty pageInfoOf nodesOf None (newClient threePageEnv) =
            Some ([firstNodes, secondNodes, thirdNodes], None, c') \<and>
          fetchCount c' = 3 \<and>
          map (\<lambda>r. map_option (\<lambda>vs. (vs ''first'', vs ''after'')) (variables r)) (requestsOf (trace c')) =
            [Some (Some (JNum 50), Some JNull),
             Some (Some (JNum 50), Some (JStr ''c1'')),
             Some (Some (JNum 50), Some (JStr ''c2''))]) \<and>
   map length [firstNodes, secondNodes, thirdNodes] = [50, 50, 20] \<and>
   paginate 2 threePageEnv ''q'' Map.empty pageInfoOf nodesOf None (newClient threePageEnv) = None"
proof -
  let ?chain = "cursorChain (\<lambda>cu. pageInfoOf (threePages cu)) 3 None"
  let ?req = "\<lambda>cu. \<lparr>queryText = ''q'',
                 variables = Some (pageVariables Map.empty (case None of Some (Some n) \<Rightarrow> n | _ \<Rightarrow> 50) cu)\<rparr>"
  have after: "afterOf \<lparr>queryText = ''q'', variables = Some (pageVariables Map.empty 50 cu)\<rparr> = cu" for cu
    by (cases cu) (simp_all add: afterOf_def pageVariables_def)
  have h1: "classify (fetch threePageEnv k (?req cu)) = Return (threePages cu)" for k cu
    by (simp add: threePageEnv_def classify_def after)
  have h2: "map (\<lambda>cu. hasNextPage (pageInfoOf (threePages cu))) ?chain = replicate (3 - 1) True @ [False]"
    unfolding threePages_chain by (simp add: pageInfoOf_def threePages_def numeral_2_eq_2)
  have len: "map length [firstNodes, secondNodes, thirdNodes] = [50, 50, 20]"
    by (simp add: firstNodes_def secondNodes_def thirdNodes_def)
  have pages: "filter (\<lambda>ns. ns \<noteq> []) (map (\<lambda>cu. nodesOf (threePages cu)) ?chain) =
                 [firstNodes, secondNodes, thirdNodes]"
    unfolding threePages_chain using len by (auto simp add: nodesOf_def threePages_def)
  have reqs: "map (\<lambda>r. map_option (\<lambda>vs. (vs ''first'', vs ''after'')) (variables r)) (map ?req ?chain) =
            [Some (Some (JNum 50), Some JNull),
             Some (Some (JNum 50), Some (JStr ''c1'')),
             Some (Some (JNum 50), Some (JStr ''c2''))]"
    unfolding threePages_chain by (simp add: pageVariables_def)
  note t7 = paginate_follows_cursors [of threePageEnv "''q''" Map.empty None threePages pageInfoOf 3 7 nodesOf
               "newClient threePageEnv", OF h1 h2]
  note t2 = paginate_follows_cursors [of threePageEnv "''q''" Map.empty None threePages pageInfoOf 3 2 nodesOf
               "newClient threePageEnv", OF h1 h2]
  have a: "\<forall>k cu. classify (fetch threePageEnv k \<lparr>queryText = ''q'',
               variables = Some (pageVariables Map.empty 50 cu)\<rparr>) = Return (threePages cu)"
    using h1 by simp
  have b: "map (\<lambda>cu. hasNextPage (pageInfoOf (threePages cu))) ?chain = [True, True, False]"
    using h2 by (simp add: numeral_2_eq_2)
  from t7 obtain c' where
    p: "paginate 7 threePageEnv ''q'' Map.empty pageInfoOf nodesOf None (newClient threePageEnv) =
          Some (filter (\<lambda>ns. ns \<noteq> []) (map (\<lambda>cu. nodesOf (threePages cu)) ?chain), None, c')" and
    fc: "fetchCount c' = fetchCount (newClient threePageEnv) + 3" and
    rq: "requestsOf (trace c') = requestsOf (trace (newClient threePageEnv)) @ map ?req ?chain"
    by auto
  have c: "\<exists>c'. paginate 7 threePageEnv ''q'' Map.empty pageInfoOf nodesOf None (newClient threePageEnv) =
            Some ([firstNodes, secondNodes, thirdNodes], None, c') \<and>
          fetchCount c' = 3 \<and>
          map (\<lambda>r. map_option (\<lambda>vs. (vs ''first'', vs ''after'')) (variables r)) (requestsOf (trace c')) =
            [Some (Some (JNum 50), Some JNull),
             Some (Some (JNum 50), Some (JStr ''c1'')),
             Some (Some (JNum 50), Some (JStr ''c2''))]"
  proof (intro exI conjI)
    show "paginate 7 threePageEnv ''q'' Map.empty pageInfoOf nodesOf None (newClient threePageEnv) =
            Some ([firstNodes, secondNodes, thirdNodes], None, c')"
      using p by (simp only: pages)
    show "fetchCount c' = 3" using fc by (simp add: newClient_def)
    have "requestsOf (trace c') = map ?req ?chain" using rq by (simp add: newClient_def)
    then show "map (\<lambda>r. map_option (\<lambda>vs. (vs ''first'', vs ''after'')) (variables r)) (requestsOf (trace c')) =
            [Some (Some (JNum 50), Some JNull),
             Some (Some (JNum 50), Some (JStr ''c1'')),
             Some (Some (JNum 50), Some (JStr ''c2''))]"
      by (simp only: reqs)
  qed
  have d: "paginate 2 threePageEnv ''q'' Map.empty pageInfoOf nodesOf None (newClient threePageEnv) = None"
    using t2 by simp
  show ?thesis using a b c d len by blast
qed


section \<open>The claims about the import run\<close>

text \<open>
  C3, as the code has it. Every item of a run ends in exactly one of
  \<open>assetsCreated\<close> (download, bucket, upload and asset insert all done),
  \<open>skippedNoProduct\<close> and \<open>failed\<close>: \<open>total\<close> is the number of files and equals
  the sum of the three, and there is one error entry per failed item. \<open>uploaded\<close> is
  not one of the three: it counts the uploads to storage, is incremented before the asset
  insert, and lies between \<open>assetsCreated\<close> and \<open>assetsCreated + failed\<close>.
\<close>

theorem import_report_accounts_each_item:
  "total (report (importRun env bucket basePath files st)) =
     assetsCreated (report (importRun env bucket basePath files st)) +
     skippedNoProduct (report (importRun env bucket basePath files st)) +
     failed (report (importRun env bucket basePath files st)) \<and>
   total (report (importRun env bucket basePath files st)) = length files \<and>
   length (errors' (report (importRun env bucket basePath files st))) =
     failed (report (importRun env bucket basePath files st)) \<and>
   assetsCreated (report (importRun env bucket basePath files st)) \<le>
     uploaded (report (importRun env bucket basePath files st)) \<and>
   uploaded (report (importRun env bucket basePath files st)) \<le>
     assetsCreated (report (importRun env bucket basePath files st)) +
     failed (report (importRun env bucket basePath files st))"
proof -
  let ?s0 = "\<lparr>report = \<lparr>total = length files, uploaded = 0, failed = 0, errors' = [],
                  assetsCreated = 0, bucketsCreated = 0, skippedNoProduct = 0\<rparr>,
        bucketCache = Map.empty,
        media_buckets = bucketTable st,
        media_assets = assetTable st,
        objects = objectStore st\<rparr>"
  have "accounted (report ?s0) 0" by (simp add: accounted_def)
  from importLoop_accounted [OF this, of env bucket basePath files]
  show ?thesis by (simp add: importRun_def accounted_def)
qed

text \<open>
  C3 as the spec states it fails: an item whose upload works and whose asset insert fails
  is counted in \<open>uploaded\<close> and in \<open>failed\<close>, so that \<open>total\<close> is not
  \<open>uploaded + skippedNoProduct + failed\<close>.
\<close>

theorem uploaded_item_also_failed:
  "total (report (importRun shopEnv ''media'' [] [item4] emptyStores)) = 1 \<and>
   uploaded (report (importRun shopEnv ''media'' [] [item4] emptyStores)) = 1 \<and>
   failed (report (importRun shopEnv ''media'' [] [item4] emptyStores)) = 1 \<and>
   skippedNoProduct (report (importRun shopEnv ''media'' [] [item4] emptyStores)) = 0 \<and>
   errors' (report (importRun shopEnv ''media'' [] [item4] emptyStores)) =
     [ItemError ''MUG-02/spin.mp4'' ''Asset insert failed for MUG-02/spin.mp4: connection reset''] \<and>
   total (report (importRun shopEnv ''media'' [] [item4] emptyStores)) \<noteq>
     uploaded (report (importRun shopEnv ''media'' [] [item4] emptyStores)) +
     skippedNoProduct (report (importRun shopEnv ''media'' [] [item4] emptyStores)) +
     failed (report (importRun shopEnv ''media'' [] [item4] emptyStores))"
  by (simp add: importRun_def processFile_def fileBody_def resolveBucket_def sku_items Let_def
      bump_defs shopEnv_def emptyStores_def upsertBucket_def objectKey_def)
     (simp add: item4_def)

text \<open>
  C4. A run over five items where items 1, 2 and 5 go through, the label of item 3 has no
  product and the asset insert of item 4 fails: the report has \<open>total = 5\<close>, three
  items completed (\<open>assetsCreated = 3\<close>, the counter incremented when all steps of an
  item are done), \<open>skippedNoProduct = 1\<close>, \<open>failed = 1\<close> and exactly one error entry,
  whose path is that of item 4; item 5 is processed after the failure (its asset is the
  last one recorded). The upload of item 4 happened before its insert failed, so
  \<open>uploaded\<close> is 4.
\<close>

theorem import_five_items:
  assumes "itemSucceeds env bucket basePath f1" and "itemSucceeds env bucket basePath f2"
      and "ownerMissing env f3" and "persistenceThrows env bucket basePath f4 msg"
      and "itemSucceeds env bucket basePath f5"
  shows "total (report (importRun env bucket basePath [f1, f2, f3, f4, f5] st)) = 5 \<and>
         assetsCreated (report (importRun env bucket basePath [f1, f2, f3, f4, f5] st)) = 3 \<and>
         skippedNoProduct (report (importRun env bucket basePath [f1, f2, f3, f4, f5] st)) = 1 \<and>
         failed (report (importRun env bucket basePath [f1, f2, f3, f4, f5] st)) = 1 \<and>
         errors' (report (importRun env bucket basePath [f1, f2, f3, f4, f5] st)) =
           [ItemError (path f4) (''Asset insert failed for '' @ path f4 @ '': '' @ msg)] \<and>
         uploaded (report (importRun env bucket basePath [f1, f2, f3, f4, f5] st)) = 4 \<and>
         map google_drive_file_id (media_assets (importRun env bucket basePath [f1, f2, f3, f4, f5] st)) =
           map google_drive_file_id (assetTable st) @ [fileId f1, fileId f2, fileId f5]"
proof -
  let ?P = "processFile env bucket basePath"
  let ?s0 = "\<lparr>report = \<lparr>total = length [f1, f2, f3, f4, f5], uploaded = 0, failed = 0, errors' = [],
                  assetsCreated = 0, bucketsCreated = 0, skippedNoProduct = 0\<rparr>,
        bucketCache = Map.empty,
        media_buckets = bucketTable st,
        media_assets = assetTable st,
        objects = objectStore st\<rparr>"
  let ?ids = "map google_drive_file_id (assetTable st)"
  let ?s1 = "?P f1 ?s0"
  let ?s2 = "?P f2 ?s1"
  let ?s3 = "?P f3 ?s2"
  let ?s4 = "?P f4 ?s3"
  let ?s5 = "?P f5 ?s4"
  have run: "importRun env bucket basePath [f1, f2, f3, f4, f5] st = ?s5"
    by (simp add: importRun_def)
  have p0: "progress ?s0 = (0, 0, 0, 0, [], ?ids)" by (simp add: progress_def)
  have c0: "cacheSound env ?s0" by (simp add: cacheSound_def)
  have p1: "progress ?s1 = (1, 1, 0, 0, [], ?ids @ [fileId f1])"
    using step_succeeds [OF assms(1) p0] by simp
  have p2: "progress ?s2 = (2, 2, 0, 0, [], ?ids @ [fileId f1, fileId f2])"
    using step_succeeds [OF assms(2) p1] by simp
  have c2: "cacheSound env ?s2" by (intro processFile_cacheSound c0)
  have p3: "progress ?s3 = (2, 2, 1, 0, [], ?ids @ [fileId f1, fileId f2])"
    using step_ownerMissing [OF assms(3) c2 p2] by simp
  have p4: "progress ?s4 = (3, 2, 1, 1,
              [ItemError (path f4) (''Asset insert failed for '' @ path f4 @ '': '' @ msg)],
              ?ids @ [fileId f1, fileId f2])"
    using step_persistenceThrows [OF assms(4) p3] by simp
  have p5: "progress ?s5 = (4, 3, 1, 1,
              [ItemError (path f4) (''Asset insert failed for '' @ path f4 @ '': '' @ msg)],
              ?ids @ [fileId f1, fileId f2, fileId f5])"
    using step_succeeds [OF assms(5) p4] by simp
  have "accounted (report ?s0) 0" by (simp add: accounted_def)
  from importLoop_accounted [OF this, of env bucket basePath "[f1, f2, f3, f4, f5]"]
  have t: "total (report ?s5) = 5" by simp
  show ?thesis
    unfolding run using p5 t by (simp add: progress_def)
qed

theorem import_five_items_witness:
  "itemSucceeds shopEnv ''media'' [] item1 \<and> itemSucceeds shopEnv ''media'' [] item2 \<and>
   ownerMissing shopEnv item3 \<and> persistenceThrows shopEnv ''media'' [] item4 ''connection reset'' \<and>
   itemSucceeds shopEnv ''media'' [] item5 \<and>
   assetsCreated (report (importRun shopEnv ''media'' [] [item1, item2, item3, item4, item5] emptyStores)) = 3 \<and>
   skippedNoProduct (report (importRun shopEnv ''media'' [] [item1, item2, item3, item4, item5] emptyStores)) = 1 \<and>
   failed (report (importRun shopEnv ''media'' [] [item1, item2, item3, item4, item5] emptyStores)) = 1 \<and>
   errors' (report (importRun shopEnv ''media'' [] [item1, item2, item3, item4, item5] emptyStores)) =
     [ItemError ''MUG-02/spin.mp4'' ''Asset insert failed for MUG-02/spin.mp4: connection reset''] \<and>
   map google_drive_file_id
     (media_assets (importRun shopEnv ''media'' [] [item1, item2, item3, item4, item5] emptyStores)) =
     [''d1'', ''d2'', ''d5'']"
proof -
  have h1: "itemSucceeds shopEnv ''media'' [] item1"
    by (simp add: itemSucceeds_def sku_items) (simp add: shopEnv_def item1_def)
  have h2: "itemSucceeds shopEnv ''media'' [] item2"
    by (simp add: itemSucceeds_def sku_items) (simp add: shopEnv_def item2_def)
  have h3: "ownerMissing shopEnv item3"
    by (simp add: ownerMissing_def sku_items) (simp add: shopEnv_def item3_def)
  have h4: "persistenceThrows shopEnv ''media'' [] item4 ''connection reset''"
    by (simp add: persistenceThrows_def sku_items) (simp add: shopEnv_def item4_def)
  have h5: "itemSucceeds shopEnv ''media'' [] item5"
    by (simp add: itemSucceeds_def sku_items) (simp add: shopEnv_def item5_def)
  have paths: "path item4 = ''MUG-02/spin.mp4''" "fileId item1 = ''d1''" "fileId item2 = ''d2''"
    "fileId item5 = ''d5''" "assetTable emptyStores = []"
    by (simp_all add: item1_def item2_def item4_def item5_def emptyStores_def)
  show ?thesis
    using h1 h2 h3 h4 h5 import_five_items [OF h1 h2 h3 h4 h5, of emptyStores]
    by (simp add: paths)
qed

text \<open>
  C9, on the record store modelled from the spec (\<open>upsertBucket\<close>). Running the import
  a second time with the same collaborators, over the same files and on the stores the
  first run left behind, leaves the number of \<open>media_buckets\<close> rows as it was and
  produces the same report; when the conflict keys (\<open>product_id\<close>) of the table were
  distinct before the first run they are distinct after both runs, and so are the labels
  when each row belonged to the product of its label. The \<open>media_assets\<close> table grows
  by one row per completed item: the second run adds as many rows as the first.
\<close>

theorem import_rerun_keeps_buckets:
  "length (media_buckets (importRun env bucket basePath files
             (storesOf (importRun env bucket basePath files st)))) =
     length (media_buckets (importRun env bucket basePath files st)) \<and>
   report (importRun env bucket basePath files (storesOf (importRun env bucket basePath files st))) =
     report (importRun env bucket basePath files st) \<and>
   length (media_assets (importRun env bucket basePath files
             (storesOf (importRun env bucket basePath files st)))) =
     length (media_assets (importRun env bucket basePath files st)) +
     assetsCreated (report (importRun env bucket basePath files st)) \<and>
   (distinct (map (\<lambda>r. product_id (snd r)) (bucketTable st)) \<longrightarrow>
      distinct (map (\<lambda>r. product_id (snd r)) (media_buckets (importRun env bucket basePath files st))) \<and>
      distinct (map (\<lambda>r. product_id (snd r))
        (media_buckets (importRun env bucket basePath files
           (storesOf (importRun env bucket basePath files st)))))) \<and>
   (distinct (map (\<lambda>r. product_id (snd r)) (bucketTable st)) \<and> ownersAgree env (bucketTable st) \<longrightarrow>
      distinct (map (\<lambda>r. sku_label (snd r)) (media_buckets (importRun env bucket basePath files st))) \<and>
      distinct (map (\<lambda>r. sku_label (snd r))
        (media_buckets (importRun env bucket basePath files
           (storesOf (importRun env bucket basePath files st))))))"
proof -
  let ?r = "\<lparr>total = length files, uploaded = 0, failed = 0, errors' = [],
             assetsCreated = 0, bucketsCreated = 0, skippedNoProduct = 0\<rparr>"
  let ?a = "\<lparr>report = ?r, bucketCache = Map.empty, media_buckets = bucketTable st,
             media_assets = assetTable st, objects = objectStore st\<rparr>"
  let ?first = "importLoop env bucket basePath files ?a"
  let ?b = "\<lparr>report = ?r, bucketCache = Map.empty, media_buckets = media_buckets ?first,
             media_assets = media_assets ?first, objects = objects ?first\<rparr>"
  let ?second = "importLoop env bucket basePath files ?b"
  have r1: "importRun env bucket basePath files st = ?first" by (simp add: importRun_def)
  have r2: "importRun env bucket basePath files (storesOf ?first) = ?second"
    by (simp add: importRun_def storesOf_def)
  have rerun: "length (media_buckets ?second) = length (media_buckets ?b) \<and>
               report ?second = report ?first"
    by (rule importLoop_rerun) simp_all
  have assets: "length (media_assets ?second) =
                  length (media_assets ?first) + assetsCreated (report ?second)"
    using importLoop_assets [of env bucket basePath files ?b] by simp
  have d1: "distinct (map (\<lambda>r. product_id (snd r)) (media_buckets ?first))"
    if "distinct (map (\<lambda>r. product_id (snd r)) (bucketTable st))"
    using importLoop_distinct [of ?a env bucket basePath files] that by simp
  have d2: "distinct (map (\<lambda>r. product_id (snd r)) (media_buckets ?second))"
    if "distinct (map (\<lambda>r. product_id (snd r)) (bucketTable st))"
    using importLoop_distinct [of ?b env bucket basePath files] d1 [OF that] by simp
  have o1: "ownersAgree env (media_buckets ?first)" if "ownersAgree env (bucketTable st)"
    using importLoop_ownersAgree [of env ?a bucket basePath files] that by simp
  have o2: "ownersAgree env (media_buckets ?second)" if "ownersAgree env (bucketTable st)"
    using importLoop_ownersAgree [of env ?b bucket basePath files] o1 [OF that] by simp
  have l1: "distinct (map (\<lambda>r. sku_label (snd r)) (media_buckets ?first))"
    if "distinct (map (\<lambda>r. product_id (snd r)) (bucketTable st))" "ownersAgree env (bucketTable st)"
    using that by (intro distinct_labels [of _ env] d1 o1)
  have l2: "distinct (map (\<lambda>r. sku_label (snd r)) (media_buckets ?second))"
    if "distinct (map (\<lambda>r. product_id (snd r)) (bucketTable st))" "ownersAgree env (bucketTable st)"
    using that by (intro distinct_labels [of _ env] d2 o2)
  show ?thesis
    unfolding r1 r2 using rerun assets d1 d2 l1 l2 by simp
qed

theorem import_rerun_keeps_buckets_witness:
  "distinct (map (\<lambda>r. product_id (snd r)) (bucketTable emptyStores)) \<and>
   ownersAgree shopEnv (bucketTable emptyStores) \<and>
   length (media_buckets (importRun shopEnv ''media'' [] [item1, item2, item5] emptyStores)) = 2 \<and>
   length (media_buckets (importRun shopEnv ''media'' [] [item1, item2, item5]
      (storesOf (importRun shopEnv ''media'' [] [item1, item2, item5] emptyStores)))) = 2 \<and>
   distinct (map (\<lambda>r. sku_label (snd r))
      (media_buckets (importRun shopEnv ''media'' [] [item1, item2, item5]
         (storesOf (importRun shopEnv ''media'' [] [item1, item2, item5] emptyStores))))) \<and>
   length (media_assets (importRun shopEnv ''media'' [] [item1, item2, item5] emptyStores)) = 3 \<and>
   length (media_assets (importRun shopEnv ''media'' [] [item1, item2, item5]
      (storesOf (importRun shopEnv ''media'' [] [item1, item2, item5] emptyStores)))) = 6"
proof -
  have d: "distinct (map (\<lambda>r. product_id (snd r)) (bucketTable emptyStores))"
    by (simp add: emptyStores_def)
  have o: "ownersAgree shopEnv (bucketTable emptyStores)"
    by (simp add: emptyStores_def ownersAgree_def)
  show ?thesis
    using d o shop_first_run
      import_rerun_keeps_buckets [of shopEnv "''media''" "[]" "[item1, item2, item5]" emptyStores]
    by simp
qed


end
